theory Spec2Isabelle
  imports Main "HOL-Library.AList" "HOL-Library.Log_Nat"
begin

section \<open>Runtime values\<close>

text \<open>
  A Python \<open>float\<close> is an IEEE 754 double.  A finite double is kept as sign, integer
  significand and binary exponent: \<open>Finite s m e\<close> is \<open>(-1)^s * m * 2^e\<close> with
  \<open>0 \<le> m < 2^53\<close> and \<open>-1074 \<le> e \<le> 971\<close>; a significand below \<open>2^52\<close> occurs only at
  the least exponent (zero and the subnormal numbers).
\<close>

datatype pyfloat = Finite bool int int | Infinity bool | NotANumber

definition real_of_pyfloat :: "pyfloat \<Rightarrow> real" where
  "real_of_pyfloat x =
     (case x of
        Finite s m e \<Rightarrow> (if s then - 1 else 1) * real_of_int m * 2 powi e
      | _ \<Rightarrow> 0)"

text \<open>
  \<open>round_to_double s a k\<close> is the double nearest to \<open>(-1)^s * a * 2^k\<close> (for
  \<open>a \<ge> 0\<close>), ties going to
  the even significand, overflow going to infinity: the rounding every arithmetic
  operation on doubles applies to its exact result.
\<close>

definition round_to_double :: "bool \<Rightarrow> int \<Rightarrow> int \<Rightarrow> pyfloat" where
  "round_to_double s a k =
     (if a = 0 then Finite s 0 (- 1074)
      else
        let shift = max (bitlen a - 53) (- 1074 - k);
            e = k + shift;
            q = (if shift \<le> 0 then a * 2 ^ nat (- shift) else a div 2 ^ nat shift);
            r = (if shift \<le> 0 then 0 else a mod 2 ^ nat shift);
            half = (if shift \<le> 0 then 1 else 2 ^ nat (shift - 1));
            q' = (if r > half \<or> (r = half \<and> odd q) then q + 1 else q);
            m = (if q' = 2 ^ 53 then 2 ^ 52 else q');
            e' = (if q' = 2 ^ 53 then e + 1 else e)
        in if e' > 971 then Infinity s else Finite s m e')"

text \<open>\<open>float(n)\<close> for an \<open>int\<close>; \<open>None\<close> is Python's \<open>OverflowError\<close>.\<close>

definition float_of_int :: "int \<Rightarrow> pyfloat option" where
  "float_of_int n =
     (case round_to_double (n < 0) \<bar>n\<bar> 0 of
        Infinity _ \<Rightarrow> None
      | x \<Rightarrow> Some x)"

text \<open>The product \<open>x * y\<close> of two doubles.\<close>

fun float_mul :: "pyfloat \<Rightarrow> pyfloat \<Rightarrow> pyfloat" where
  "float_mul (Finite s1 m1 e1) (Finite s2 m2 e2) = round_to_double (s1 \<noteq> s2) (m1 * m2) (e1 + e2)"
| "float_mul (Finite s1 m1 e1) (Infinity s2) = (if m1 = 0 then NotANumber else Infinity (s1 \<noteq> s2))"
| "float_mul (Infinity s1) (Finite s2 m2 e2) = (if m2 = 0 then NotANumber else Infinity (s1 \<noteq> s2))"
| "float_mul (Infinity s1) (Infinity s2) = Infinity (s1 \<noteq> s2)"
| "float_mul NotANumber y = NotANumber"
| "float_mul x NotANumber = NotANumber"

text \<open>The literal \<open>0.01\<close>: the double \<open>0x3F847AE147AE147B\<close>.\<close>

definition lit_0_01 :: pyfloat where
  "lit_0_01 = Finite False 5764607523034235 (- 59)"

text \<open>
  Modelled from the spec: the classes \<open>Series\<close> and \<open>BuiltinSeries\<close> of
  \<open>pine/vm/helper.py\<close>, which are not among the sources.  A time series is an ordered
  sequence of samples, most recent last; a named market series is a time series (a
  \<open>Series\<close> subtype) that also carries the symbolic name \<open>varname\<close> of its market field.

  The other values are Python's: \<open>None\<close>, \<open>bool\<close>, \<open>int\<close>, \<open>float\<close>, \<open>str\<close>, a \<open>dict\<close>
  with string keys (insertion ordered) and a host function (a builtin variable's
  accessor, named by its identifier in the host module).
\<close>

datatype val =
    VNone
  | VBool bool
  | VInt int
  | VFloat pyfloat
  | VStr string
  | VDict "(string \<times> val) list"
  | VFunc string
  | VSeries "val list"
  | VBuiltinSeries string "val list"

type_synonym dict = "(string \<times> val) list"

text \<open>\<open>type(v)\<close>, and \<open>isinstance(v, Series)\<close>, \<open>isinstance(v, BuiltinSeries)\<close>.\<close>

datatype pytype =
    NoneType | BoolType | IntType | FloatType | StrType | DictType | FunctionType
  | SeriesType | BuiltinSeriesType

fun type_of :: "val \<Rightarrow> pytype" where
  "type_of VNone = NoneType"
| "type_of (VBool _) = BoolType"
| "type_of (VInt _) = IntType"
| "type_of (VFloat _) = FloatType"
| "type_of (VStr _) = StrType"
| "type_of (VDict _) = DictType"
| "type_of (VFunc _) = FunctionType"
| "type_of (VSeries _) = SeriesType"
| "type_of (VBuiltinSeries _ _) = BuiltinSeriesType"

definition subtype_of_Series :: "pytype \<Rightarrow> bool" where
  "subtype_of_Series t = (t = SeriesType \<or> t = BuiltinSeriesType)"

definition isinstance_Series :: "val \<Rightarrow> bool" where
  "isinstance_Series v = subtype_of_Series (type_of v)"

definition isinstance_BuiltinSeries :: "val \<Rightarrow> bool" where
  "isinstance_BuiltinSeries v = (type_of v = BuiltinSeriesType)"

definition isfunction :: "val \<Rightarrow> bool" where
  "isfunction v = (type_of v = FunctionType)"

section \<open>Errors\<close>

text \<open>
  Every \<open>PineError\<close> the interpreter raises, by its message template and the values
  formatted into it (\<open>VariableNotFoundKey\<close> is the message of \<open>VariableNotFound\<close> for a
  name that is not a string); and the host exceptions that reach the interpreter.
\<close>

datatype pine_error =
    InvalidTypeToAssign string val val
  | VariableNotFoundToAssign string
  | VariableNotImplemented string
  | VariableNotFound string
  | VariableNotFoundKey val
  | FunctionNotFound string
  | FunctionArgumentError string string
  | FunctionNotImplemented string
  | MissingArgument string

datatype error =
    PineError pine_error
  | PineArgumentError string
  | NotImplementedError
  | KeyError val
  | IndexError
  | TypeError
  | ValueError
  | OverflowError

type_synonym ('a, 's) result = "(error + 'a) \<times> 's"

section \<open>The interpreter core: class VM\<close>

text \<open>
  An entry of the function table is a host callable (named by its identifier) or the
  pair \<open>(args, node)\<close> of a user-defined function.  The syntax-tree nodes are not part
  of the interpreter core: \<open>'n\<close> is their type, and \<open>node.eval(vm)\<close> is a parameter
  \<open>ev\<close> of the operations that call it.  The fields \<open>market\<close> and \<open>title\<close> are never
  read by the core and are left out.
\<close>

datatype 'n func = Host string | UserDefined "string list" 'n

type_synonym scope = "string \<rightharpoonup> val"

record 'n VM =
  function_table :: "string \<rightharpoonup> 'n func"
  variable_tables :: "scope list"

definition register_function ::
  "('n, 'z) VM_scheme \<Rightarrow> string \<Rightarrow> string list \<Rightarrow> 'n \<Rightarrow> ('n, 'z) VM_scheme" where
  "register_function s name args node =
     s\<lparr>function_table := (function_table s)(name \<mapsto> UserDefined args node)\<rparr>"

text \<open>\<open>self.variable_tables[-1][name] = value\<close>; indexing an empty list raises.\<close>

definition define_variable ::
  "('n, 'z) VM_scheme \<Rightarrow> string \<Rightarrow> val \<Rightarrow> (unit, ('n, 'z) VM_scheme) result" where
  "define_variable s name v =
     (case variable_tables s of
        [] \<Rightarrow> (Inl IndexError, s)
      | _ \<Rightarrow> (Inr (),
          s\<lparr>variable_tables := butlast (variable_tables s) @ [(last (variable_tables s))(name \<mapsto> v)]\<rparr>))"

text \<open>
  The loop of \<open>assign_variable\<close> over \<open>reversed(self.variable_tables)\<close>: the argument
  list is the reversed stack, innermost scope first, and so is the result.
\<close>

fun assign_loop :: "scope list \<Rightarrow> string \<Rightarrow> val \<Rightarrow> error + scope list" where
  "assign_loop [] name v = Inl (PineError (VariableNotFoundToAssign name))"
| "assign_loop (t # ts) name v =
     (case t name of
        Some old \<Rightarrow>
          (let compat = (if isinstance_Series old then isinstance_Series v
                         else type_of old = type_of v)
           in if \<not> compat then Inl (PineError (InvalidTypeToAssign name v old))
              else Inr (t(name \<mapsto> v) # ts))
      | None \<Rightarrow>
          (case assign_loop ts name v of
             Inl e \<Rightarrow> Inl e
           | Inr ts' \<Rightarrow> Inr (t # ts')))"

definition assign_variable ::
  "('n, 'z) VM_scheme \<Rightarrow> string \<Rightarrow> val \<Rightarrow> (val, ('n, 'z) VM_scheme) result" where
  "assign_variable s name v =
     (case assign_loop (rev (variable_tables s)) name v of
        Inl e \<Rightarrow> (Inl e, s)
      | Inr ts \<Rightarrow> (Inr v, s\<lparr>variable_tables := rev ts\<rparr>))"

text \<open>
  \<open>lookup_variable\<close>.  A builtin variable bound to a host function is an accessor:
  it is called with the interpreter and its result returned.  The accessor reads the
  interpreter and does not change it, so \<open>accessor f s\<close> is a value or an exception.
\<close>

fun lookup_loop ::
  "(string \<Rightarrow> 's \<Rightarrow> error + val) \<Rightarrow> 's \<Rightarrow> scope list \<Rightarrow> string \<Rightarrow> error + val" where
  "lookup_loop accessor s [] name = Inl (PineError (VariableNotFound name))"
| "lookup_loop accessor s (t # ts) name =
     (case t name of
        Some v \<Rightarrow>
          (case v of
             VFunc f \<Rightarrow>
               (case accessor f s of
                  Inl NotImplementedError \<Rightarrow> Inl (PineError (VariableNotImplemented name))
                | r \<Rightarrow> r)
           | _ \<Rightarrow> Inr v)
      | None \<Rightarrow> lookup_loop accessor s ts name)"

definition lookup_variable ::
  "(string \<Rightarrow> ('n, 'z) VM_scheme \<Rightarrow> error + val) \<Rightarrow> ('n, 'z) VM_scheme \<Rightarrow> string
     \<Rightarrow> (val, ('n, 'z) VM_scheme) result" where
  "lookup_variable accessor s name =
     (lookup_loop accessor s (rev (variable_tables s)) name, s)"

definition push_scope :: "('n, 'z) VM_scheme \<Rightarrow> ('n, 'z) VM_scheme" where
  "push_scope s = s\<lparr>variable_tables := variable_tables s @ [Map.empty]\<rparr>"

text \<open>\<open>self.variable_tables.pop(-1)\<close>; popping an empty list raises.\<close>

definition pop_scope :: "('n, 'z) VM_scheme \<Rightarrow> (unit, ('n, 'z) VM_scheme) result" where
  "pop_scope s =
     (case variable_tables s of
        [] \<Rightarrow> (Inl IndexError, s)
      | _ \<Rightarrow> (Inr (), s\<lparr>variable_tables := butlast (variable_tables s)\<rparr>))"

text \<open>
  \<open>try: ... finally: self.pop_scope()\<close>: the scope is popped whether the body returned
  or raised, and the body's outcome stands unless the pop itself raises.
\<close>

definition finally_pop_scope ::
  "('a, ('n, 'z) VM_scheme) result \<Rightarrow> ('a, ('n, 'z) VM_scheme) result" where
  "finally_pop_scope r =
     (case pop_scope (snd r) of
        (Inl e, s') \<Rightarrow> (Inl e, s')
      | (Inr _, s') \<Rightarrow> (fst r, s'))"

text \<open>The three loops of \<open>_set_func_arguments\<close>.\<close>

fun define_all ::
  "('n, 'z) VM_scheme \<Rightarrow> (string \<times> val) list \<Rightarrow> (unit, ('n, 'z) VM_scheme) result" where
  "define_all s [] = (Inr (), s)"
| "define_all s ((n, a) # rest) =
     (case define_variable s n a of
        (Inl e, s') \<Rightarrow> (Inl e, s')
      | (Inr _, s') \<Rightarrow> define_all s' rest)"

fun check_arguments :: "('n, 'z) VM_scheme \<Rightarrow> string list \<Rightarrow> error + unit" where
  "check_arguments s [] = Inr ()"
| "check_arguments s (n # ns) =
     (case variable_tables s of
        [] \<Rightarrow> Inl IndexError
      | _ \<Rightarrow>
          (if n \<notin> dom (last (variable_tables s)) then Inl (PineError (MissingArgument n))
           else check_arguments s ns))"

definition set_func_arguments ::
  "('n, 'z) VM_scheme \<Rightarrow> string list \<Rightarrow> val list \<Rightarrow> (string \<times> val) list
     \<Rightarrow> (unit, ('n, 'z) VM_scheme) result" where
  "set_func_arguments s names args kwargs =
     (case (if args \<noteq> [] then define_all s (zip names args) else (Inr (), s)) of
        (Inl e, s1) \<Rightarrow> (Inl e, s1)
      | (Inr _, s1) \<Rightarrow>
          (case (if kwargs \<noteq> [] then define_all s1 kwargs else (Inr (), s1)) of
             (Inl e, s2) \<Rightarrow> (Inl e, s2)
           | (Inr _, s2) \<Rightarrow> (check_arguments s2 names, s2)))"

text \<open>
  \<open>func_call\<close>.  \<open>builtin f s args kwargs\<close> is the call \<open>func(self, args, kwargs)\<close> of the
  host callable \<open>f\<close>; \<open>ev node s\<close> is \<open>node.eval(self)\<close>.
\<close>

definition func_call ::
  "('n \<Rightarrow> ('n, 'z) VM_scheme \<Rightarrow> (val, ('n, 'z) VM_scheme) result)
     \<Rightarrow> (string \<Rightarrow> ('n, 'z) VM_scheme \<Rightarrow> val list \<Rightarrow> (string \<times> val) list
           \<Rightarrow> (val, ('n, 'z) VM_scheme) result)
     \<Rightarrow> ('n, 'z) VM_scheme \<Rightarrow> string \<Rightarrow> val list \<Rightarrow> (string \<times> val) list
     \<Rightarrow> (val, ('n, 'z) VM_scheme) result" where
  "func_call ev builtin s fname args kwargs =
     (case function_table s fname of
        None \<Rightarrow> (Inl (PineError (FunctionNotFound fname)), s)
      | Some (Host f) \<Rightarrow>
          (case builtin f s args kwargs of
             (Inl (PineArgumentError msg), s') \<Rightarrow>
               (Inl (PineError (FunctionArgumentError msg fname)), s')
           | (Inl NotImplementedError, s') \<Rightarrow>
               (Inl (PineError (FunctionNotImplemented fname)), s')
           | r \<Rightarrow> r)
      | Some (UserDefined arg_ids node) \<Rightarrow>
          finally_pop_scope
            (case set_func_arguments (push_scope s) arg_ids args kwargs of
               (Inl e, s') \<Rightarrow> (Inl e, s')
             | (Inr _, s') \<Rightarrow> ev node s'))"

definition eval_node ::
  "('n \<Rightarrow> ('n, 'z) VM_scheme \<Rightarrow> (val, ('n, 'z) VM_scheme) result)
     \<Rightarrow> ('n, 'z) VM_scheme \<Rightarrow> 'n \<Rightarrow> (unit, ('n, 'z) VM_scheme) result" where
  "eval_node ev s node =
     finally_pop_scope
       (case ev node (push_scope s) of
          (Inl e, s') \<Rightarrow> (Inl e, s')
        | (Inr _, s') \<Rightarrow> (Inr (), s'))"

text \<open>
  Construction.  The tables a new interpreter starts from are loaded by reflection from
  the host modules \<open>builtin_function\<close> and \<open>builtin_variable\<close>; they are the parameters
  \<open>functions\<close> and \<open>variables\<close>.
\<close>

definition VM_init :: "(string \<rightharpoonup> 'n func) \<Rightarrow> scope \<Rightarrow> 'n VM" where
  "VM_init functions variables =
     \<lparr>function_table = functions, variable_tables = [variables]\<rparr>"

section \<open>Host operations used by the two passes\<close>

text \<open>\<open>"{}".format(n)\<close> for a natural number \<open>n\<close>: its decimal digits.\<close>

function format_nat :: "nat \<Rightarrow> string" where
  "format_nat n =
     (if 10 \<le> n then format_nat (n div 10) else []) @ [''0123456789'' ! (n mod 10)]"
  by pat_completeness auto
termination
  by (relation "measure id") auto

declare format_nat.simps [simp del]

text \<open>\<open>not x\<close> is true of \<open>None\<close>, of the empty string and of zero.\<close>

definition truthy_str :: "string option \<Rightarrow> bool" where
  "truthy_str x = (case x of None \<Rightarrow> False | Some t \<Rightarrow> t \<noteq> [])"

definition truthy_int :: "int option \<Rightarrow> bool" where
  "truthy_int x = (case x of None \<Rightarrow> False | Some n \<Rightarrow> n \<noteq> 0)"

text \<open>
  What the host decides: the accessors of builtin variables, Python's conversions
  \<open>bool(v)\<close>, \<open>int(v)\<close> and \<open>float(v)\<close> where they depend on the series classes or
  parse a string, and the exception of a scope lookup whose key is a series (the series
  classes decide whether a series can be a key at all).
\<close>

record 's host =
  accessor :: "string \<Rightarrow> 's \<Rightarrow> error + val"
  host_bool :: "val \<Rightarrow> error + val"
  host_int :: "val \<Rightarrow> error + val"
  host_float :: "val \<Rightarrow> error + val"
  series_key_error :: "val \<Rightarrow> error"

definition py_bool :: "'s host \<Rightarrow> val \<Rightarrow> error + val" where
  "py_bool h v =
     (case v of
        VNone \<Rightarrow> Inr (VBool False)
      | VBool b \<Rightarrow> Inr (VBool b)
      | VInt n \<Rightarrow> Inr (VBool (n \<noteq> 0))
      | VStr t \<Rightarrow> Inr (VBool (t \<noteq> []))
      | VDict d \<Rightarrow> Inr (VBool (d \<noteq> []))
      | VFunc f \<Rightarrow> Inr (VBool True)
      | VFloat x \<Rightarrow> Inr (VBool (case x of Finite s m e \<Rightarrow> m \<noteq> 0 | _ \<Rightarrow> True))
      | _ \<Rightarrow> host_bool h v)"

definition py_int :: "'s host \<Rightarrow> val \<Rightarrow> error + val" where
  "py_int h v =
     (case v of
        VBool b \<Rightarrow> Inr (VInt (if b then 1 else 0))
      | VInt n \<Rightarrow> Inr (VInt n)
      | VFloat x \<Rightarrow>
          (case x of
             Finite s m e \<Rightarrow>
               Inr (VInt ((if s then - 1 else 1)
                          * (if 0 \<le> e then m * 2 ^ nat e else m div 2 ^ nat (- e))))
           | Infinity s \<Rightarrow> Inl OverflowError
           | NotANumber \<Rightarrow> Inl ValueError)
      | VNone \<Rightarrow> Inl TypeError
      | VDict d \<Rightarrow> Inl TypeError
      | VFunc f \<Rightarrow> Inl TypeError
      | _ \<Rightarrow> host_int h v)"

definition py_float :: "'s host \<Rightarrow> val \<Rightarrow> error + val" where
  "py_float h v =
     (case v of
        VFloat x \<Rightarrow> Inr (VFloat x)
      | VInt n \<Rightarrow> (case float_of_int n of None \<Rightarrow> Inl OverflowError | Some x \<Rightarrow> Inr (VFloat x))
      | VBool b \<Rightarrow> Inr (VFloat (if b then Finite False (2 ^ 52) (- 52) else Finite False 0 (- 1074)))
      | VNone \<Rightarrow> Inl TypeError
      | VDict d \<Rightarrow> Inl TypeError
      | VFunc f \<Rightarrow> Inl TypeError
      | _ \<Rightarrow> host_float h v)"

text \<open>
  Modelled from the spec: indexing of the class \<open>Series\<close>, which is not among the sources.
  \<open>x[-1]\<close> on a series is its most recent sample, and raises on a series without samples
  as it does on every Python sequence.
\<close>

definition series_last :: "val \<Rightarrow> error + val" where
  "series_last x =
     (case x of
        VSeries samples \<Rightarrow> (if samples = [] then Inl IndexError else Inr (last samples))
      | VBuiltinSeries name samples \<Rightarrow>
          (if samples = [] then Inl IndexError else Inr (last samples))
      | _ \<Rightarrow> Inl TypeError)"

text \<open>
  Modelled from the spec: \<open>_parse_input_args\<close> and \<open>_expand_args\<close> of the module
  \<open>builtin_function\<close>, which is not among the sources.  They validate a call's
  positional and named arguments and return them in a fixed order, \<open>None\<close> standing
  for an optional argument that is absent.  The handlers below take that tuple: an
  optional argument is an \<open>option\<close>, typed by the table the handler passes to
  \<open>_expand_args\<close> (an entry of type \<open>None\<close> is any value).
\<close>

type_synonym input_args =
  "val \<times> string option \<times> string option \<times> val \<times> val \<times> val \<times> val \<times> val"

section \<open>The scan pass: class InputScanner\<close>

record 'n InputScanner = "'n VM" +
  inputs :: "dict list"

definition InputScanner_init :: "(string \<rightharpoonup> 'n func) \<Rightarrow> scope \<Rightarrow> 'n InputScanner" where
  "InputScanner_init functions variables =
     \<lparr>function_table = functions(''input'' \<mapsto> Host ''InputScanner.input''),
      variable_tables = [variables],
      inputs = []\<rparr>"

fun InputScanner_input ::
  "('n, 'z) InputScanner_scheme \<Rightarrow> input_args \<Rightarrow> val \<times> ('n, 'z) InputScanner_scheme" where
  "InputScanner_input s (defval, title, typ, minval, maxval, confirm, step, options) =
     (let t = type_of defval;
          (typ', defval') =
            (case typ of
               None \<Rightarrow>
                 (if t = BoolType then (''bool'', defval)
                  else if t = IntType then (''integer'', defval)
                  else if t = FloatType then (''float'', defval)
                  else (case defval of
                          VBuiltinSeries varname samples \<Rightarrow> (''source'', VStr varname)
                        | _ \<Rightarrow> (''string'', defval)))
             | Some ty \<Rightarrow> (ty, defval));
          title' =
            (if \<not> truthy_str title then ''input'' @ format_nat (length (inputs s) + 1)
             else the title)
      in (defval,
          s\<lparr>inputs := inputs s @
              [[(''defval'', defval'),
                (''title'', VStr title'),
                (''type'', VStr typ'),
                (''minval'', minval),
                (''maxval'', maxval),
                (''options'', options)]]\<rparr>))"

declare InputScanner_input.simps [simp del]

section \<open>The render pass: class RenderVM\<close>

record 'n RenderVM = "'n VM" +
  inputs :: "string \<rightharpoonup> val"
  plots :: "dict list"
  input_idx :: nat

definition RenderVM_init ::
  "(string \<rightharpoonup> 'n func) \<Rightarrow> scope \<Rightarrow> (string \<rightharpoonup> val) \<Rightarrow> 'n RenderVM" where
  "RenderVM_init functions variables inputs' =
     \<lparr>function_table = functions
        (''input'' \<mapsto> Host ''RenderVM.input'',
         ''plot'' \<mapsto> Host ''RenderVM.plot'',
         ''hline'' \<mapsto> Host ''RenderVM.hline'',
         ''fill'' \<mapsto> Host ''RenderVM.fill''),
      variable_tables = [variables],
      inputs = inputs',
      plots = [],
      input_idx = 0\<rparr>"

text \<open>
  \<open>self.lookup_variable(val)\<close> for a stored value \<open>val\<close>, which need not be a string.  The
  scopes have string keys only, so a key of another hashable type is in no scope and the
  lookup ends with "variable not found"; a \<open>dict\<close> cannot be hashed, and the first test
  \<open>name in t\<close> raises \<open>TypeError\<close>.
\<close>

definition lookup_variable_value ::
  "('n, 'z) VM_scheme host \<Rightarrow> ('n, 'z) VM_scheme \<Rightarrow> val
     \<Rightarrow> (val, ('n, 'z) VM_scheme) result" where
  "lookup_variable_value h s name =
     (case name of
        VStr n \<Rightarrow> lookup_variable (accessor h) s n
      | VDict d \<Rightarrow>
          (if variable_tables s = [] then Inl (PineError (VariableNotFoundKey name))
           else Inl TypeError, s)
      | VSeries samples \<Rightarrow> (Inl (series_key_error h name), s)
      | VBuiltinSeries varname samples \<Rightarrow> (Inl (series_key_error h name), s)
      | _ \<Rightarrow> (Inl (PineError (VariableNotFoundKey name)), s))"

fun RenderVM_input ::
  "('n, 'z) RenderVM_scheme host \<Rightarrow> ('n, 'z) RenderVM_scheme \<Rightarrow> input_args
     \<Rightarrow> (val, ('n, 'z) RenderVM_scheme) result" where
  "RenderVM_input h s (defval, title, typ, minval, maxval, confirm, step, options) =
     (let s1 = s\<lparr>input_idx := input_idx s + 1\<rparr>;
          title' =
            (if \<not> truthy_str title then ''input'' @ format_nat (input_idx s1)
             else the title)
      in case RenderVM.inputs s1 title' of
           None \<Rightarrow> (Inl (KeyError (VStr title')), s1)
         | Some val \<Rightarrow>
             (let t = type_of defval;
                  typ' =
                    (if \<not> truthy_str typ then
                       (if t = BoolType then Some ''bool''
                        else if t = IntType then Some ''integer''
                        else if t = FloatType then Some ''float''
                        else if isinstance_BuiltinSeries defval then Some ''source''
                        else typ)
                     else typ)
              in if typ' = Some ''bool'' then (py_bool h val, s1)
                 else if typ' = Some ''integer'' then (py_int h val, s1)
                 else if typ' = Some ''float'' then (py_float h val, s1)
                 else if typ' = Some ''source'' then lookup_variable_value h s1 val
                 else (Inr val, s1)))"

declare RenderVM_input.simps [simp del]

text \<open>
  The style constants of the host module \<open>builtin_variable\<close>, which is not among the
  sources, are parameters of \<open>plot\<close>.
\<close>

record style_constants =
  STYLE_LINE :: int
  STYLE_STEPLINE :: int
  STYLE_HISTOGRAM :: int
  STYLE_CROSS :: int
  STYLE_AREA :: int
  STYLE_COLUMNS :: int
  STYLE_CIRCLES :: int

definition dict_set :: "dict \<Rightarrow> string \<Rightarrow> val \<Rightarrow> dict" where
  "dict_set d k v = AList.update k v d"

definition dict_get :: "dict \<Rightarrow> string \<Rightarrow> error + val" where
  "dict_get d k = (case map_of d k of None \<Rightarrow> Inl (KeyError (VStr k)) | Some v \<Rightarrow> Inr v)"

text \<open>
  The styling both \<open>plot\<close> and \<open>fill\<close> end with: a colour that is a series stands for
  its most recent sample, and a transparency that is given and not zero becomes the
  opacity \<open>transp * 0.01\<close>.
\<close>

definition set_color :: "val option \<Rightarrow> dict \<Rightarrow> error + dict" where
  "set_color color plot =
     (case color of
        None \<Rightarrow> Inr plot
      | Some c \<Rightarrow>
          (if isinstance_Series c then
             (case series_last c of
                Inl e \<Rightarrow> Inl e
              | Inr c' \<Rightarrow> Inr (dict_set plot ''color'' c'))
           else Inr (dict_set plot ''color'' c)))"

definition set_alpha :: "int option \<Rightarrow> dict \<Rightarrow> error + dict" where
  "set_alpha transp' plot =
     (if truthy_int transp' then
        (case float_of_int (the transp') of
           None \<Rightarrow> Inl OverflowError
         | Some x \<Rightarrow> Inr (dict_set plot ''alpha'' (VFloat (float_mul x lit_0_01))))
      else Inr plot)"

type_synonym plot_args =
  "val \<times> string \<times> val option \<times> int option \<times> int option \<times> bool option \<times> int option
     \<times> pyfloat option \<times> int option \<times> bool option \<times> bool option \<times> int option"

fun RenderVM_plot ::
  "style_constants \<Rightarrow> ('n, 'z) RenderVM_scheme \<Rightarrow> plot_args
     \<Rightarrow> (val, ('n, 'z) RenderVM_scheme) result" where
  "RenderVM_plot c s (series, title, color, linewidth, style, trackprice, transp', histbase,
       offset, join, editable, show_last) =
     (let plot = [(''title'', VStr title), (''series'', series)];
          plot =
            (if truthy_int style then
               (let st = the style in
                if st = STYLE_LINE c then dict_set plot ''type'' (VStr ''line'')
                else if st = STYLE_STEPLINE c then dict_set plot ''type'' (VStr ''line'')
                else if st = STYLE_HISTOGRAM c then dict_set plot ''type'' (VStr ''bar'')
                else if st = STYLE_CROSS c then
                  dict_set (dict_set plot ''mark'' (VStr ''+'')) ''type'' (VStr ''marker'')
                else if st = STYLE_AREA c then dict_set plot ''type'' (VStr ''band'')
                else if st = STYLE_COLUMNS c then dict_set plot ''type'' (VStr ''bar'')
                else if st = STYLE_CIRCLES c then
                  dict_set (dict_set plot ''mark'' (VStr ''o'')) ''type'' (VStr ''marker'')
                else dict_set plot ''type'' (VStr ''line''))
             else plot)
      in case set_color color plot of
           Inl e \<Rightarrow> (Inl e, s)
         | Inr plot \<Rightarrow>
             (let plot =
                    (if truthy_int linewidth then dict_set plot ''width'' (VInt (the linewidth))
                     else plot)
              in case set_alpha transp' plot of
                   Inl e \<Rightarrow> (Inl e, s)
                 | Inr plot \<Rightarrow> (Inr (VDict plot), s\<lparr>plots := plots s @ [plot]\<rparr>)))"

declare RenderVM_plot.simps [simp del]

type_synonym hline_args =
  "pyfloat \<times> string option \<times> string option \<times> int option \<times> int option \<times> bool option"

fun RenderVM_hline ::
  "('n, 'z) RenderVM_scheme \<Rightarrow> hline_args \<Rightarrow> (val, ('n, 'z) RenderVM_scheme) result" where
  "RenderVM_hline s (price, title, color, linestyle, linewidth, editable) =
     (let plot = [(''title'', (case title of None \<Rightarrow> VNone | Some t \<Rightarrow> VStr t)),
                  (''series'', VFloat price),
                  (''type'', VStr ''hline'')];
          plot = (if truthy_str color then dict_set plot ''color'' (VStr (the color)) else plot);
          plot = (if truthy_int linewidth then dict_set plot ''width'' (VInt (the linewidth))
                  else plot)
      in (Inr (VDict plot), s\<lparr>plots := plots s @ [plot]\<rparr>))"

declare RenderVM_hline.simps [simp del]

type_synonym fill_args =
  "dict \<times> dict \<times> val option \<times> int option \<times> string option \<times> bool option \<times> bool option"

fun RenderVM_fill ::
  "('n, 'z) RenderVM_scheme \<Rightarrow> fill_args \<Rightarrow> (val, ('n, 'z) RenderVM_scheme) result" where
  "RenderVM_fill s (s1, s2, color, transp', title, editable, show_last) =
     (case dict_get s1 ''series'' of
        Inl e \<Rightarrow> (Inl e, s)
      | Inr series1 \<Rightarrow>
          (case dict_get s2 ''series'' of
             Inl e \<Rightarrow> (Inl e, s)
           | Inr series2 \<Rightarrow>
               (let plot = [(''title'', (case title of None \<Rightarrow> VNone | Some t \<Rightarrow> VStr t)),
                            (''series'', series1),
                            (''series2'', series2),
                            (''type'', VStr ''fill'')]
                in case set_color color plot of
                     Inl e \<Rightarrow> (Inl e, s)
                   | Inr plot \<Rightarrow>
                       (case set_alpha transp' plot of
                          Inl e \<Rightarrow> (Inl e, s)
                        | Inr plot \<Rightarrow> (Inr (VDict plot), s\<lparr>plots := plots s @ [plot]\<rparr>)))))"

declare RenderVM_fill.simps [simp del]

section \<open>Example states\<close>

text \<open>
  A small interpreter whose nodes are variable names: evaluating the node \<open>x\<close> defines
  the local \<open>tmp\<close> and then looks \<open>x\<close> up, so it returns when \<open>x\<close> is bound and raises
  when it is not.
\<close>

definition ex_eval ::
  "string \<Rightarrow> (string, 'z) VM_scheme \<Rightarrow> (val, (string, 'z) VM_scheme) result" where
  "ex_eval node s =
     (let s' = snd (define_variable s ''tmp'' VNone)
      in lookup_variable (\<lambda>f s. Inl NotImplementedError) s' node)"

definition ex_builtin ::
  "string \<Rightarrow> (string, 'z) VM_scheme \<Rightarrow> val list \<Rightarrow> (string \<times> val) list
     \<Rightarrow> (val, (string, 'z) VM_scheme) result" where
  "ex_builtin f s args kwargs = (Inl NotImplementedError, s)"

definition ex_vm :: "string VM" where
  "ex_vm =
     \<lparr>function_table =
        [''f'' \<mapsto> UserDefined [''a'', ''b''] ''b'',
         ''g'' \<mapsto> UserDefined [''a''] ''nope'',
         ''h'' \<mapsto> UserDefined [''a''] ''z''],
      variable_tables = [[''x'' \<mapsto> VSeries []], [''x'' \<mapsto> VInt 1], Map.empty]\<rparr>"

text \<open>
  A scan pass and two render passes over an empty builtin library.  The stored inputs of
  the render passes hold, for the title \<open>input1\<close>, the integer \<open>5\<close> and the double \<open>2.5\<close>;
  the host refuses every conversion it is asked for.
\<close>

definition ex_scanner :: "string InputScanner" where
  "ex_scanner = InputScanner_init Map.empty Map.empty"

definition ex_render :: "string RenderVM" where
  "ex_render = RenderVM_init Map.empty Map.empty [''input1'' \<mapsto> VInt 5]"


definition ex_host :: "'s host" where
  "ex_host =
     \<lparr>accessor = (\<lambda>f s. Inl NotImplementedError),
      host_bool = (\<lambda>v. Inl TypeError),
      host_int = (\<lambda>v. Inl TypeError),
      host_float = (\<lambda>v. Inl TypeError),
      series_key_error = (\<lambda>v. TypeError)\<rparr>"

definition ex_styles :: style_constants where
  "ex_styles =
     \<lparr>STYLE_LINE = 0, STYLE_STEPLINE = 1, STYLE_HISTOGRAM = 2, STYLE_CROSS = 3,
      STYLE_AREA = 4, STYLE_COLUMNS = 5, STYLE_CIRCLES = 6\<rparr>"

section \<open>Assignment\<close>

lemma assign_loop_unbound:
  "\<forall>u\<in>set ts. u name = None \<Longrightarrow>
   assign_loop ts name v = Inl (PineError (VariableNotFoundToAssign name))"
  by (induction ts) auto

lemma compat_iff:
  "(if isinstance_Series old then isinstance_Series v else type_of old = type_of v)
   = (type_of v = type_of old
      \<or> (subtype_of_Series (type_of old) \<and> subtype_of_Series (type_of v)))"
  by (auto simp: isinstance_Series_def subtype_of_Series_def)

lemma assign_loop_bound:
  "\<forall>u\<in>set inner. u name = None \<Longrightarrow> t name = Some old \<Longrightarrow>
   assign_loop (inner @ t # outer) name v =
     (if type_of v = type_of old
         \<or> (subtype_of_Series (type_of old) \<and> subtype_of_Series (type_of v))
      then Inr (inner @ t(name \<mapsto> v) # outer)
      else Inl (PineError (InvalidTypeToAssign name v old)))"
proof (induction inner)
  case Nil
  then show ?case by (simp add: compat_iff Let_def)
next
  case (Cons u us)
  then show ?case by (simp del: fun_upd_apply)
qed

text \<open>
  C1.  Assigning to a name that no scope binds fails with the error "variable not found
  to assign" and changes nothing.  When the innermost scope that binds the name binds it
  to \<open>old\<close>, the assignment of \<open>v\<close> succeeds exactly when \<open>v\<close> has the type of \<open>old\<close> or
  both are series (of any series type): it then returns \<open>v\<close> and updates that scope in
  place; otherwise it fails with the error "invalid type to assign" and changes nothing.
\<close>

theorem assign_variable_spec:
  "((\<forall>u\<in>set (variable_tables s). u name = None) \<longrightarrow>
      assign_variable s name v = (Inl (PineError (VariableNotFoundToAssign name)), s))
   \<and> (variable_tables s = outer @ t # inner \<and> t name = Some old
        \<and> (\<forall>u\<in>set inner. u name = None) \<longrightarrow>
      assign_variable s name v =
        (if type_of v = type_of old
            \<or> (subtype_of_Series (type_of old) \<and> subtype_of_Series (type_of v))
         then (Inr v, s\<lparr>variable_tables := outer @ t(name \<mapsto> v) # inner\<rparr>)
         else (Inl (PineError (InvalidTypeToAssign name v old)), s)))"
proof (intro conjI impI)
  assume "\<forall>u\<in>set (variable_tables s). u name = None"
  then have "assign_loop (rev (variable_tables s)) name v
               = Inl (PineError (VariableNotFoundToAssign name))"
    by (intro assign_loop_unbound) simp
  then show "assign_variable s name v = (Inl (PineError (VariableNotFoundToAssign name)), s)"
    by (simp add: assign_variable_def)
next
  assume a: "variable_tables s = outer @ t # inner \<and> t name = Some old
        \<and> (\<forall>u\<in>set inner. u name = None)"
  then have "assign_loop (rev inner @ t # rev outer) name v =
     (if type_of v = type_of old
         \<or> (subtype_of_Series (type_of old) \<and> subtype_of_Series (type_of v))
      then Inr (rev inner @ t(name \<mapsto> v) # rev outer)
      else Inl (PineError (InvalidTypeToAssign name v old)))"
    by (intro assign_loop_bound) simp_all
  with a show "assign_variable s name v =
        (if type_of v = type_of old
            \<or> (subtype_of_Series (type_of old) \<and> subtype_of_Series (type_of v))
         then (Inr v, s\<lparr>variable_tables := outer @ t(name \<mapsto> v) # inner\<rparr>)
         else (Inl (PineError (InvalidTypeToAssign name v old)), s))"
    by (simp add: assign_variable_def)
qed

theorem assign_variable_spec_witness:
  "assign_variable ex_vm ''x'' (VInt 5) =
     (Inr (VInt 5),
      ex_vm\<lparr>variable_tables := [[''x'' \<mapsto> VSeries []], [''x'' \<mapsto> VInt 5], Map.empty]\<rparr>)
   \<and> assign_variable ex_vm ''x'' (VBool True) =
     (Inl (PineError (InvalidTypeToAssign ''x'' (VBool True) (VInt 1))), ex_vm)
   \<and> assign_variable ex_vm ''q'' (VInt 5) =
     (Inl (PineError (VariableNotFoundToAssign ''q'')), ex_vm)"
proof -
  have unbound: "\<forall>u\<in>set (variable_tables ex_vm). u ''q'' = None"
    by (simp add: ex_vm_def)
  have bound: "variable_tables ex_vm = [[''x'' \<mapsto> VSeries []]] @ [''x'' \<mapsto> VInt 1] # [Map.empty]
      \<and> [''x'' \<mapsto> VInt 1] ''x'' = Some (VInt 1)
      \<and> (\<forall>u\<in>set [Map.empty :: scope]. u ''x'' = None)"
    by (simp add: ex_vm_def)
  have a: "assign_variable ex_vm ''q'' (VInt 5) =
     (Inl (PineError (VariableNotFoundToAssign ''q'')), ex_vm)"
    using assign_variable_spec[where s = ex_vm and name = "''q''" and v = "VInt 5"] unbound
    by blast
  have b: "assign_variable ex_vm ''x'' (VInt 5) =
     (Inr (VInt 5),
      ex_vm\<lparr>variable_tables := [[''x'' \<mapsto> VSeries []], [''x'' \<mapsto> VInt 5], Map.empty]\<rparr>)"
    using assign_variable_spec[where s = ex_vm and name = "''x''" and v = "VInt 5"
        and outer = "[[''x'' \<mapsto> VSeries []]]" and t = "[''x'' \<mapsto> VInt 1]"
        and old = "VInt 1" and inner = "[Map.empty]"] bound
    by simp
  have c: "assign_variable ex_vm ''x'' (VBool True) =
     (Inl (PineError (InvalidTypeToAssign ''x'' (VBool True) (VInt 1))), ex_vm)"
    using assign_variable_spec[where s = ex_vm and name = "''x''" and v = "VBool True"
        and outer = "[[''x'' \<mapsto> VSeries []]]" and t = "[''x'' \<mapsto> VInt 1]"
        and old = "VInt 1" and inner = "[Map.empty]"] bound
    by (simp add: subtype_of_Series_def)
  from a b c show ?thesis by simp
qed

section \<open>Calls of user-defined functions and scopes\<close>

lemma define_variable_last:
  "variable_tables s = ts @ [t] \<Longrightarrow>
   define_variable s n a = (Inr (), s\<lparr>variable_tables := ts @ [t(n \<mapsto> a)]\<rparr>)"
  by (cases ts) (simp_all add: define_variable_def)

lemma define_all_last:
  "variable_tables s = ts @ [t] \<Longrightarrow>
   define_all s kvs =
     (Inr (), s\<lparr>variable_tables := ts @ [fold (\<lambda>(k, v) m. m(k \<mapsto> v)) kvs t]\<rparr>)"
proof (induction kvs arbitrary: s t)
  case Nil
  then have "s\<lparr>variable_tables := ts @ [t]\<rparr> = s" by (metis VM.surjective VM.update_convs(2))
  then show ?case by simp
next
  case (Cons kv kvs)
  obtain k v where kv: "kv = (k, v)" by (cases kv)
  have "variable_tables (s\<lparr>variable_tables := ts @ [t(k \<mapsto> v)]\<rparr>) = ts @ [t(k \<mapsto> v)]"
    by simp
  from Cons.IH[OF this] show ?case
    by (simp add: kv define_variable_last[OF Cons.prems])
qed

lemma check_arguments_last:
  "variable_tables s = ts @ [t] \<Longrightarrow>
   check_arguments s names =
     (case find (\<lambda>n. n \<notin> dom t) names of
        None \<Rightarrow> Inr ()
      | Some n \<Rightarrow> Inl (PineError (MissingArgument n)))"
  by (induction names) (auto split: list.splits)

lemma dom_fold_upd:
  "dom (fold (\<lambda>(k, v) m. m(k \<mapsto> v)) kvs t) = dom t \<union> fst ` set kvs"
  by (induction kvs arbitrary: t) (auto split: prod.splits)

lemma fold_upd_distinct:
  "distinct (map fst kvs) \<Longrightarrow> (k, v) \<in> set kvs \<Longrightarrow>
   fold (\<lambda>(k, v) m. m(k \<mapsto> v)) kvs t k = Some v"
proof (induction kvs rule: rev_induct)
  case Nil then show ?case by simp
next
  case (snoc kv kvs)
  obtain k' v' where kv: "kv = (k', v')" by (cases kv)
  show ?case
  proof (cases "(k, v) \<in> set kvs")
    case True
    with snoc.prems kv have "k' \<noteq> k" by force
    with snoc True show ?thesis by (simp add: kv)
  next
    case False
    with snoc.prems kv show ?thesis by simp
  qed
qed

lemma set_zip_fst: "fst ` set (zip names args) = set (take (length args) names)"
proof -
  have "map fst (zip names args) = take (length args) names"
    by (simp add: map_fst_zip_take min_def)
  then show ?thesis by (metis set_map)
qed

lemma set_func_arguments_push:
  "set_func_arguments (push_scope s) names args kwargs =
     (case find (\<lambda>n. n \<notin> set (take (length args) names) \<union> fst ` set kwargs) names of
        None \<Rightarrow> Inr ()
      | Some n \<Rightarrow> Inl (PineError (MissingArgument n)),
      s\<lparr>variable_tables := variable_tables s @
          [fold (\<lambda>(k, v) m. m(k \<mapsto> v)) kwargs
             (fold (\<lambda>(k, v) m. m(k \<mapsto> v)) (zip names args) Map.empty)]\<rparr>)"
proof -
  let ?upd = "\<lambda>(k, v) m. m(k \<mapsto> (v::val))"
  let ?t1 = "fold ?upd (zip names args) Map.empty"
  let ?t2 = "fold ?upd kwargs ?t1"
  let ?s1 = "s\<lparr>variable_tables := variable_tables s @ [?t1]\<rparr>"
  let ?s2 = "s\<lparr>variable_tables := variable_tables s @ [?t2]\<rparr>"
  have p: "variable_tables (push_scope s) = variable_tables s @ [Map.empty]"
    by (simp add: push_scope_def)
  have a: "(if args \<noteq> [] then define_all (push_scope s) (zip names args)
            else (Inr (), push_scope s)) = (Inr (), ?s1)"
    using define_all_last[OF p, of "zip names args"] by (auto simp: push_scope_def)
  have p1: "variable_tables ?s1 = variable_tables s @ [?t1]" by simp
  have b: "(if kwargs \<noteq> [] then define_all ?s1 kwargs else (Inr (), ?s1)) = (Inr (), ?s2)"
    using define_all_last[OF p1, of kwargs] by auto
  have p2: "variable_tables ?s2 = variable_tables s @ [?t2]" by simp
  have d: "dom ?t2 = set (take (length args) names) \<union> fst ` set kwargs"
    by (simp add: dom_fold_upd set_zip_fst)
  show ?thesis
    by (simp only: set_func_arguments_def a prod.case sum.case b check_arguments_last[OF p2] d)
qed

lemma finally_pop_scope_last:
  "variable_tables s' = ts @ [t] \<Longrightarrow>
   finally_pop_scope (r, s') = (r, s'\<lparr>variable_tables := ts\<rparr>)"
  by (cases ts) (simp_all add: finally_pop_scope_def pop_scope_def)

lemma finally_pop_scope_tables:
  "variable_tables (snd (finally_pop_scope r)) = butlast (variable_tables (snd r))"
  by (cases "variable_tables (snd r)")
     (simp_all add: finally_pop_scope_def pop_scope_def)

lemma finally_pop_scope_fst:
  "variable_tables (snd r) \<noteq> [] \<Longrightarrow> fst (finally_pop_scope r) = fst r"
  by (cases "variable_tables (snd r)")
     (simp_all add: finally_pop_scope_def pop_scope_def)

lemma update_tables_same: "s\<lparr>variable_tables := variable_tables s\<rparr> = s"
  by simp

lemma func_call_missing:
  assumes "function_table s fname = Some (UserDefined names node)"
    and "find (\<lambda>n. n \<notin> set (take (length args) names) \<union> fst ` set kwargs) names = Some n"
  shows "func_call ev builtin s fname args kwargs = (Inl (PineError (MissingArgument n)), s)"
proof -
  let ?sc = "fold (\<lambda>(k, v) m. m(k \<mapsto> v)) kwargs
             (fold (\<lambda>(k, v) m. m(k \<mapsto> v)) (zip names args) Map.empty)"
  have "finally_pop_scope (Inl (PineError (MissingArgument n)),
          s\<lparr>variable_tables := variable_tables s @ [?sc]\<rparr>)
        = (Inl (PineError (MissingArgument n)), s)"
    by (simp add: finally_pop_scope_last[where ts = "variable_tables s" and t = ?sc])
  then show ?thesis
    using assms by (simp add: func_call_def set_func_arguments_push)
qed

lemma func_call_bound:
  assumes "function_table s fname = Some (UserDefined names node)"
    and "find (\<lambda>n. n \<notin> set (take (length args) names) \<union> fst ` set kwargs) names = None"
  shows "func_call ev builtin s fname args kwargs =
         finally_pop_scope (ev node (s\<lparr>variable_tables := variable_tables s @
          [fold (\<lambda>(k, v) m. m(k \<mapsto> v)) kwargs
             (fold (\<lambda>(k, v) m. m(k \<mapsto> v)) (zip names args) Map.empty)]\<rparr>))"
  using assms by (simp add: func_call_def set_func_arguments_push)



lemma ex_eval_balanced:
  "length (variable_tables (snd (ex_eval node s'))) = length (variable_tables s')"
proof -
  have "snd (ex_eval node s') = snd (define_variable s' ''tmp'' VNone)"
    by (simp add: ex_eval_def lookup_variable_def Let_def)
  then show ?thesis
    by (cases "variable_tables s'") (simp_all add: define_variable_def)
qed

text \<open>
  C2.  Scope-stack balance.  \<open>eval_node\<close> pushes exactly one scope, evaluates the node
  and pops one scope on every exit path, so its stack is the node's final stack without
  its last scope.  When evaluating the node leaves the depth of the stack as it found
  it (as every nested push/evaluate/pop sequence does), then both \<open>eval_node\<close> and a call
  of a user-defined function with that body end at the depth they started from, whether
  they return or raise, in argument binding or in the body; and \<open>eval_node\<close> raises
  exactly when the node does.
\<close>

theorem scope_balance:
  "((\<forall>s'. length (variable_tables (snd (ev node s'))) = length (variable_tables s')) \<longrightarrow>
      (function_table s fname = Some (UserDefined arg_ids node) \<longrightarrow>
         length (variable_tables (snd (func_call ev builtin s fname args kwargs)))
           = length (variable_tables s))
      \<and> length (variable_tables (snd (eval_node ev s node))) = length (variable_tables s)
      \<and> fst (eval_node ev s node)
           = (case fst (ev node (push_scope s)) of Inl e \<Rightarrow> Inl e | Inr x \<Rightarrow> Inr ()))
   \<and> variable_tables (push_scope s) = variable_tables s @ [Map.empty]
   \<and> variable_tables (snd (eval_node ev s node))
        = butlast (variable_tables (snd (ev node (push_scope s))))"
proof (intro conjI impI)
  show "variable_tables (push_scope s) = variable_tables s @ [Map.empty]"
    by (simp add: push_scope_def)
  show "variable_tables (snd (eval_node ev s node))
        = butlast (variable_tables (snd (ev node (push_scope s))))"
    by (simp add: eval_node_def finally_pop_scope_tables split: prod.splits sum.splits)
next
  assume bal: "\<forall>s'. length (variable_tables (snd (ev node s'))) = length (variable_tables s')"
  let ?r = "ev node (push_scope s)"
  have len: "length (variable_tables (snd ?r)) = Suc (length (variable_tables s))"
    using bal by (simp add: push_scope_def)
  then have ne: "variable_tables (snd ?r) \<noteq> []" by auto
  have tabs: "variable_tables (snd (eval_node ev s node)) = butlast (variable_tables (snd ?r))"
    by (simp add: eval_node_def finally_pop_scope_tables split: prod.splits sum.splits)
  show "length (variable_tables (snd (eval_node ev s node))) = length (variable_tables s)"
    by (simp add: tabs len)
  show "fst (eval_node ev s node) = (case fst ?r of Inl e \<Rightarrow> Inl e | Inr x \<Rightarrow> Inr ())"
    using ne by (cases ?r) (auto simp: eval_node_def finally_pop_scope_fst split: sum.splits)
  assume f: "function_table s fname = Some (UserDefined arg_ids node)"
  let ?b = "set_func_arguments (push_scope s) arg_ids args kwargs"
  let ?body = "case ?b of (Inl e, s') \<Rightarrow> (Inl e, s') | (Inr x, s') \<Rightarrow> ev node s'"
  have "length (variable_tables (snd ?body)) = Suc (length (variable_tables s))"
    using bal by (simp add: set_func_arguments_push split: option.splits)
  moreover have "func_call ev builtin s fname args kwargs = finally_pop_scope ?body"
    using f by (simp add: func_call_def)
  ultimately show "length (variable_tables (snd (func_call ev builtin s fname args kwargs)))
           = length (variable_tables s)"
    by (simp add: finally_pop_scope_tables)
qed


theorem scope_balance_witness:
  "(\<forall>s'::string VM. length (variable_tables (snd (ex_eval ''nope'' s'))) = length (variable_tables s'))
   \<and> function_table ex_vm ''g'' = Some (UserDefined [''a''] ''nope'')
   \<and> fst (func_call ex_eval ex_builtin ex_vm ''g'' [VInt 1] [])
        = Inl (PineError (VariableNotFound ''nope''))
   \<and> length (variable_tables (snd (func_call ex_eval ex_builtin ex_vm ''g'' [VInt 1] []))) = 3
   \<and> fst (eval_node ex_eval ex_vm ''nope'') = Inl (PineError (VariableNotFound ''nope''))
   \<and> length (variable_tables (snd (eval_node ex_eval ex_vm ''nope''))) = 3
   \<and> length (variable_tables ex_vm) = 3"
proof -
  have bal: "\<forall>s'::string VM.
      length (variable_tables (snd (ex_eval ''nope'' s'))) = length (variable_tables s')"
    by (simp add: ex_eval_balanced)
  have g: "function_table ex_vm ''g'' = Some (UserDefined [''a''] ''nope'')"
    by (simp add: ex_vm_def)
  have n: "length (variable_tables ex_vm) = 3"
    by (simp add: ex_vm_def)
  have r: "fst (ex_eval ''nope'' (push_scope ex_vm)) = Inl (PineError (VariableNotFound ''nope''))"
    by (simp add: ex_eval_def ex_vm_def push_scope_def define_variable_def
        lookup_variable_def Let_def)
  have c: "fst (func_call ex_eval ex_builtin ex_vm ''g'' [VInt 1] [])
        = Inl (PineError (VariableNotFound ''nope''))"
    by (simp add: func_call_def set_func_arguments_def finally_pop_scope_def pop_scope_def
        ex_eval_def ex_vm_def push_scope_def define_variable_def
        lookup_variable_def Let_def)
  note T = scope_balance[where ev = ex_eval and node = "''nope''" and s = ex_vm
      and fname = "''g''" and arg_ids = "[''a'']" and builtin = ex_builtin
      and args = "[VInt 1]" and kwargs = "[]"]
  from T bal g n r c show ?thesis by simp
qed

text \<open>
  C3.  A call of a user-defined function some formal parameter of which is bound neither
  by position nor by name fails with the error "missing argument" for such a parameter,
  before the body is evaluated, and leaves the interpreter as it was.  In particular,
  for the formal parameters \<open>(a, b)\<close>: the call with the named argument \<open>b\<close> only
  reports \<open>a\<close> missing, and the call with one positional argument only reports \<open>b\<close>
  missing.
\<close>

theorem missing_argument:
  "(function_table s fname = Some (UserDefined names node)
      \<and> (\<exists>n\<in>set names. n \<notin> set (take (length args) names) \<and> n \<notin> fst ` set kwargs) \<longrightarrow>
    (\<exists>n\<in>set names. n \<notin> set (take (length args) names) \<and> n \<notin> fst ` set kwargs
       \<and> func_call ev builtin s fname args kwargs = (Inl (PineError (MissingArgument n)), s)))
   \<and> (function_table s fname = Some (UserDefined [a, b] node) \<and> a \<noteq> b \<longrightarrow>
        func_call ev builtin s fname [] [(b, v)] = (Inl (PineError (MissingArgument a)), s)
        \<and> func_call ev builtin s fname [x] [] = (Inl (PineError (MissingArgument b)), s))"
proof (intro conjI impI)
  assume a: "function_table s fname = Some (UserDefined names node)
      \<and> (\<exists>n\<in>set names. n \<notin> set (take (length args) names) \<and> n \<notin> fst ` set kwargs)"
  let ?P = "\<lambda>n. n \<notin> set (take (length args) names) \<union> fst ` set kwargs"
  from a have "find ?P names \<noteq> None" by (auto simp: find_None_iff)
  then obtain n where n: "find ?P names = Some n" by auto
  then have "n \<in> set names" and "?P n"
    by (auto simp: find_Some_iff)
  moreover have "func_call ev builtin s fname args kwargs
      = (Inl (PineError (MissingArgument n)), s)"
    using a n by (intro func_call_missing) auto
  ultimately show "\<exists>n\<in>set names. n \<notin> set (take (length args) names) \<and> n \<notin> fst ` set kwargs
       \<and> func_call ev builtin s fname args kwargs = (Inl (PineError (MissingArgument n)), s)"
    by auto
next
  assume a: "function_table s fname = Some (UserDefined [a, b] node) \<and> a \<noteq> b"
  then show "func_call ev builtin s fname [] [(b, v)] = (Inl (PineError (MissingArgument a)), s)"
    by (intro func_call_missing) auto
  from a show "func_call ev builtin s fname [x] [] = (Inl (PineError (MissingArgument b)), s)"
    by (intro func_call_missing) auto
qed

theorem missing_argument_witness:
  "function_table ex_vm ''f'' = Some (UserDefined [''a'', ''b''] ''b'')
   \<and> func_call ex_eval ex_builtin ex_vm ''f'' [] [(''b'', VInt 2)]
        = (Inl (PineError (MissingArgument ''a'')), ex_vm)
   \<and> func_call ex_eval ex_builtin ex_vm ''f'' [VInt 1] []
        = (Inl (PineError (MissingArgument ''b'')), ex_vm)
   \<and> (\<exists>n\<in>{''a'', ''b''}. func_call ex_eval ex_builtin ex_vm ''f'' [VInt 1] [(''c'', VInt 3)]
        = (Inl (PineError (MissingArgument n)), ex_vm))"
proof -
  have f: "function_table ex_vm ''f'' = Some (UserDefined [''a'', ''b''] ''b'')"
    by (simp add: ex_vm_def)
  have ne: "''a'' \<noteq> ''b''" by simp
  have ex: "\<exists>n\<in>set [''a'', ''b'']. n \<notin> set (take (length [VInt 1]) [''a'', ''b''])
       \<and> n \<notin> fst ` set [(''c'', VInt 3)]"
    by simp
  note T = missing_argument[where s = ex_vm and fname = "''f''" and names = "[''a'', ''b'']"
      and node = "''b''" and a = "''a''" and b = "''b''" and ev = ex_eval
      and builtin = ex_builtin]
  from T[where args = "[VInt 1]" and kwargs = "[(''c'', VInt 3)]" and v = "VInt 2"
      and x = "VInt 1"] f ne ex
  show ?thesis by auto
qed

text \<open>
  C9.  Argument binding pushes one scope \<open>sc\<close> whose names are the formal parameters
  covered by position and all named arguments, whether they are formal parameters or
  not; each named argument is bound to its value.  Binding raises nothing but "missing
  argument": it succeeds exactly when every formal parameter is bound in \<open>sc\<close>, and the
  body is then evaluated in \<open>sc\<close>.  Positional arguments beyond the formal parameters
  change nothing: the call behaves as without them.
\<close>

theorem extra_arguments:
  "(\<exists>sc. snd (set_func_arguments (push_scope s) names args kwargs)
           = s\<lparr>variable_tables := variable_tables s @ [sc]\<rparr>
      \<and> dom sc = set (take (length args) names) \<union> fst ` set kwargs
      \<and> (distinct (map fst kwargs) \<longrightarrow> (\<forall>(k, v)\<in>set kwargs. sc k = Some v))
      \<and> (fst (set_func_arguments (push_scope s) names args kwargs) = Inr ())
          = (set names \<subseteq> dom sc)
      \<and> (function_table s fname = Some (UserDefined names node) \<and> set names \<subseteq> dom sc \<longrightarrow>
           func_call ev builtin s fname args kwargs
             = finally_pop_scope (ev node (s\<lparr>variable_tables := variable_tables s @ [sc]\<rparr>))))
   \<and> (function_table s fname = Some (UserDefined names node) \<and> length names \<le> length args \<longrightarrow>
         func_call ev builtin s fname (args @ extra) kwargs
           = func_call ev builtin s fname args kwargs)"
proof (intro conjI impI)
  let ?upd = "\<lambda>(k, v) m. m(k \<mapsto> (v::val))"
  let ?sc = "fold ?upd kwargs (fold ?upd (zip names args) Map.empty)"
  let ?P = "\<lambda>n. n \<notin> set (take (length args) names) \<union> fst ` set kwargs"
  have d: "dom ?sc = set (take (length args) names) \<union> fst ` set kwargs"
    by (simp add: dom_fold_upd set_zip_fst)
  have ok: "(find ?P names = None) = (set names \<subseteq> dom ?sc)"
    unfolding d by (auto simp: find_None_iff)
  have 1: "snd (set_func_arguments (push_scope s) names args kwargs)
           = s\<lparr>variable_tables := variable_tables s @ [?sc]\<rparr>"
    by (simp add: set_func_arguments_push)
  have 3: "distinct (map fst kwargs) \<longrightarrow> (\<forall>(k, v)\<in>set kwargs. ?sc k = Some v)"
    by (auto simp: fold_upd_distinct)
  have 4: "(fst (set_func_arguments (push_scope s) names args kwargs) = Inr ())
          = (set names \<subseteq> dom ?sc)"
    unfolding ok[symmetric] by (simp add: set_func_arguments_push split: option.splits)
  have 5: "function_table s fname = Some (UserDefined names node) \<and> set names \<subseteq> dom ?sc \<longrightarrow>
           func_call ev builtin s fname args kwargs
             = finally_pop_scope (ev node (s\<lparr>variable_tables := variable_tables s @ [?sc]\<rparr>))"
    using ok func_call_bound[of s fname names node args kwargs ev builtin] by simp
  from 1 d 3 4 5
  show "\<exists>sc. snd (set_func_arguments (push_scope s) names args kwargs)
           = s\<lparr>variable_tables := variable_tables s @ [sc]\<rparr>
      \<and> dom sc = set (take (length args) names) \<union> fst ` set kwargs
      \<and> (distinct (map fst kwargs) \<longrightarrow> (\<forall>(k, v)\<in>set kwargs. sc k = Some v))
      \<and> (fst (set_func_arguments (push_scope s) names args kwargs) = Inr ())
          = (set names \<subseteq> dom sc)
      \<and> (function_table s fname = Some (UserDefined names node) \<and> set names \<subseteq> dom sc \<longrightarrow>
           func_call ev builtin s fname args kwargs
             = finally_pop_scope (ev node (s\<lparr>variable_tables := variable_tables s @ [sc]\<rparr>)))"
    by (intro exI[of _ ?sc]) blast
next
  assume a: "function_table s fname = Some (UserDefined names node) \<and> length names \<le> length args"
  then have z: "zip names (args @ extra) = zip names args"
    by (simp add: zip_append2)
  have "set_func_arguments (push_scope s) names (args @ extra) kwargs
      = set_func_arguments (push_scope s) names args kwargs"
    using a by (simp add: set_func_arguments_push z)
  with a show "func_call ev builtin s fname (args @ extra) kwargs
           = func_call ev builtin s fname args kwargs"
    by (simp add: func_call_def)
qed


theorem extra_arguments_witness:
  "function_table ex_vm ''h'' = Some (UserDefined [''a''] ''z'')
   \<and> func_call ex_eval ex_builtin ex_vm ''h'' [VInt 1, VInt 2] [(''z'', VInt 9)]
        = (Inr (VInt 9), ex_vm)"
proof -
  have h: "function_table ex_vm ''h'' = Some (UserDefined [''a''] ''z'')"
    by (simp add: ex_vm_def)
  note T = extra_arguments[where s = ex_vm and names = "[''a'']" and args = "[VInt 1]"
      and kwargs = "[(''z'', VInt 9)]" and fname = "''h''" and node = "''z''"
      and ev = ex_eval and builtin = ex_builtin and extra = "[VInt 2]"]
  from T h obtain sc where
    z: "sc ''z'' = Some (VInt 9)" and
    call: "func_call ex_eval ex_builtin ex_vm ''h'' [VInt 1] [(''z'', VInt 9)]
             = finally_pop_scope
                 (ex_eval ''z'' (ex_vm\<lparr>variable_tables := variable_tables ex_vm @ [sc]\<rparr>))" and
    more: "func_call ex_eval ex_builtin ex_vm ''h'' [VInt 1, VInt 2] [(''z'', VInt 9)]
             = func_call ex_eval ex_builtin ex_vm ''h'' [VInt 1] [(''z'', VInt 9)]"
    by auto
  let ?s = "ex_vm\<lparr>variable_tables := variable_tables ex_vm @ [sc]\<rparr>"
  have "define_variable ?s ''tmp'' VNone
          = (Inr (), ex_vm\<lparr>variable_tables := variable_tables ex_vm @ [sc(''tmp'' \<mapsto> VNone)]\<rparr>)"
    using define_variable_last[of ?s "variable_tables ex_vm" sc "''tmp''" VNone] by simp
  then have "ex_eval ''z'' ?s
          = (Inr (VInt 9), ex_vm\<lparr>variable_tables := variable_tables ex_vm @ [sc(''tmp'' \<mapsto> VNone)]\<rparr>)"
    using z by (simp add: ex_eval_def lookup_variable_def)
  then have "finally_pop_scope (ex_eval ''z'' ?s) = (Inr (VInt 9), ex_vm)"
    using finally_pop_scope_last[of
        "ex_vm\<lparr>variable_tables := variable_tables ex_vm @ [sc(''tmp'' \<mapsto> VNone)]\<rparr>"
        "variable_tables ex_vm" "sc(''tmp'' \<mapsto> VNone)" "Inr (VInt 9)"]
    by simp
  with call more h show ?thesis by simp
qed

section \<open>Input declarations in the two passes\<close>

lemma format_nat_1: "format_nat 1 = ''1''"
  by code_simp

lemma format_nat_Suc_0: "format_nat (Suc 0) = ''1''"
  using format_nat_1 by simp

lemma format_nat_2: "format_nat 2 = ''2''"
  by code_simp

lemma scan_input_eq:
  "InputScanner_input s (defval, title, typ, minval, maxval, confirm, step, options) =
     (defval,
      s\<lparr>InputScanner.inputs := InputScanner.inputs s @
        [[(''defval'',
             (case typ of
                None \<Rightarrow> (case defval of VBuiltinSeries varname samples \<Rightarrow> VStr varname | _ \<Rightarrow> defval)
              | Some ty \<Rightarrow> defval)),
          (''title'', VStr (if truthy_str title then the title
                           else ''input'' @ format_nat (length (InputScanner.inputs s) + 1))),
          (''type'',
             VStr (case typ of
                None \<Rightarrow> (case defval of
                            VBool b \<Rightarrow> ''bool'' | VInt n \<Rightarrow> ''integer'' | VFloat x \<Rightarrow> ''float''
                          | VBuiltinSeries varname samples \<Rightarrow> ''source''
                          | _ \<Rightarrow> ''string'')
              | Some ty \<Rightarrow> ty)),
          (''minval'', minval), (''maxval'', maxval), (''options'', options)]]\<rparr>)"
  by (cases "typ"; cases defval) (simp_all add: InputScanner_input.simps Let_def)

lemma render_input_missing:
  "RenderVM.inputs r (if truthy_str title then the title
                      else ''input'' @ format_nat (input_idx r + 1)) = None \<Longrightarrow>
   RenderVM_input h r (defval, title, typ, minval, maxval, confirm, step, options) =
     (Inl (KeyError (VStr (if truthy_str title then the title
                           else ''input'' @ format_nat (input_idx r + 1)))),
      r\<lparr>input_idx := input_idx r + 1\<rparr>)"
  by (cases "truthy_str title") (simp_all add: RenderVM_input.simps Let_def)









text \<open>
  C5.  Every call of the scan pass's input handler returns the default it was given and
  appends exactly one descriptor to the sequence of inputs.  For a default that is a
  named market series, with no explicit type, the descriptor has the type \<open>source\<close> and
  records the series' variable name as default, while the call still returns the series.
\<close>

theorem scan_input_appends:
  "(\<exists>d. InputScanner_input s (defval, title, typ, minval, maxval, confirm, step, options)
          = (defval, s\<lparr>InputScanner.inputs := InputScanner.inputs s @ [d]\<rparr>))
   \<and> (\<exists>d. InputScanner_input s
            (VBuiltinSeries name samples, title, None, minval, maxval, confirm, step, options)
          = (VBuiltinSeries name samples,
             s\<lparr>InputScanner.inputs := InputScanner.inputs s @ [d]\<rparr>)
        \<and> map_of d ''type'' = Some (VStr ''source'')
        \<and> map_of d ''defval'' = Some (VStr name))"
  apply (simp only: scan_input_eq option.case val.case)
  apply (intro conjI exI)
     apply (rule refl)
    apply (rule refl)
   apply simp
  apply simp
  done

theorem scan_input_appends_witness:
  "\<exists>d. InputScanner_input ex_scanner
          (VBuiltinSeries ''close'' [VInt 7], None, None, VNone, VNone, VNone, VNone, VNone)
        = (VBuiltinSeries ''close'' [VInt 7], ex_scanner\<lparr>InputScanner.inputs := [d]\<rparr>)
      \<and> map_of d ''type'' = Some (VStr ''source'')
      \<and> map_of d ''defval'' = Some (VStr ''close'')"
proof -
  have e: "InputScanner.inputs ex_scanner = []"
    by (simp add: ex_scanner_def InputScanner_init_def)
  from scan_input_appends[where s = ex_scanner and name = "''close''" and samples = "[VInt 7]"
      and title = None and minval = VNone and maxval = VNone and confirm = VNone
      and step = VNone and options = VNone]
  show ?thesis by (simp add: e)
qed

text \<open>
  C6.  A call without an explicit title gets the title \<open>input<N>\<close>, \<open>N\<close> being one more
  than the number of descriptors recorded so far.  Hence when a scan pass that starts with
  no descriptors executes two input calls, neither with an explicit title, the titles of
  its descriptors are \<open>input1\<close> and \<open>input2\<close>, in call order (whatever else is evaluated
  between the two calls, as long as it leaves the descriptors alone).
\<close>

theorem auto_titles:
  "(\<not> truthy_str title \<longrightarrow>
      (\<exists>d. InputScanner.inputs (snd (InputScanner_input z (defval, title, rest)))
              = InputScanner.inputs z @ [d]
         \<and> map_of d ''title''
              = Some (VStr (''input'' @ format_nat (length (InputScanner.inputs z) + 1)))))
   \<and> (\<not> truthy_str titleA \<and> \<not> truthy_str titleB
       \<and> InputScanner.inputs s = []
       \<and> InputScanner_input s (defvalA, titleA, restA) = (vA, sA)
       \<and> InputScanner.inputs sA' = InputScanner.inputs sA
       \<and> InputScanner_input sA' (defvalB, titleB, restB) = (vB, sB)
      \<longrightarrow> map (\<lambda>d. map_of d ''title'') (InputScanner.inputs sB)
            = [Some (VStr ''input1''), Some (VStr ''input2'')])"
proof (intro conjI impI)
  obtain ty minval maxval confirm step options
    where r: "rest = (ty, minval, maxval, confirm, step, options)"
    by (cases rest)
  assume "\<not> truthy_str title"
  then show "\<exists>d. InputScanner.inputs (snd (InputScanner_input z (defval, title, rest)))
              = InputScanner.inputs z @ [d]
         \<and> map_of d ''title''
              = Some (VStr (''input'' @ format_nat (length (InputScanner.inputs z) + 1)))"
    unfolding r by (simp add: scan_input_eq)
next
  obtain tyA minvalA maxvalA confirmA stepA optionsA
    where rA: "restA = (tyA, minvalA, maxvalA, confirmA, stepA, optionsA)"
    by (cases restA)
  obtain tyB minvalB maxvalB confirmB stepB optionsB
    where rB: "restB = (tyB, minvalB, maxvalB, confirmB, stepB, optionsB)"
    by (cases restB)
  assume a: "\<not> truthy_str titleA \<and> \<not> truthy_str titleB
       \<and> InputScanner.inputs s = []
       \<and> InputScanner_input s (defvalA, titleA, restA) = (vA, sA)
       \<and> InputScanner.inputs sA' = InputScanner.inputs sA
       \<and> InputScanner_input sA' (defvalB, titleB, restB) = (vB, sB)"
  then have 1: "map (\<lambda>d. map_of d ''title'') (InputScanner.inputs sA) = [Some (VStr ''input1'')]"
    unfolding rA by (auto simp add: scan_input_eq format_nat_Suc_0)
  then have l: "length (InputScanner.inputs sA') = 1"
    using a by (metis length_map length_Cons list.size(3) One_nat_def)
  from a have "InputScanner.inputs sB = InputScanner.inputs sA @
      [[(''defval'', (case tyB of
                None \<Rightarrow> (case defvalB of VBuiltinSeries varname samples \<Rightarrow> VStr varname | _ \<Rightarrow> defvalB)
              | Some ty \<Rightarrow> defvalB)),
          (''title'', VStr (''input'' @ format_nat 2)),
          (''type'',
             VStr (case tyB of
                None \<Rightarrow> (case defvalB of
                            VBool b \<Rightarrow> ''bool'' | VInt n \<Rightarrow> ''integer'' | VFloat x \<Rightarrow> ''float''
                          | VBuiltinSeries varname samples \<Rightarrow> ''source''
                          | _ \<Rightarrow> ''string'')
              | Some ty \<Rightarrow> ty)),
          (''minval'', minvalB), (''maxval'', maxvalB), (''options'', optionsB)]]"
    unfolding rB scan_input_eq using l by (auto simp: numeral_2_eq_2)
  with 1 show "map (\<lambda>d. map_of d ''title'') (InputScanner.inputs sB)
            = [Some (VStr ''input1''), Some (VStr ''input2'')]"
    by (simp add: format_nat_2)
qed


theorem auto_titles_witness:
  "InputScanner.inputs ex_scanner = []
   \<and> map (\<lambda>d. map_of d ''title'')
        (InputScanner.inputs
          (snd (InputScanner_input
                 (snd (InputScanner_input ex_scanner
                        (VInt 5, None, None, VNone, VNone, VNone, VNone, VNone)))
                 (VBool True, Some [], None, VNone, VNone, VNone, VNone, VNone))))
       = [Some (VStr ''input1''), Some (VStr ''input2'')]"
proof -
  let ?cA = "(VInt 5, None, None, VNone, VNone, VNone, VNone, VNone)"
  let ?cB = "(VBool True, Some [], None, VNone, VNone, VNone, VNone, VNone)"
  let ?sA = "snd (InputScanner_input ex_scanner ?cA)"
  let ?sB = "snd (InputScanner_input ?sA ?cB)"
  have e: "InputScanner.inputs ex_scanner = []"
    by (simp add: ex_scanner_def InputScanner_init_def)
  have t: "\<not> truthy_str None" "\<not> truthy_str (Some [])"
    by (simp_all add: truthy_str_def)
  have cA: "InputScanner_input ex_scanner ?cA = (fst (InputScanner_input ex_scanner ?cA), ?sA)"
    by simp
  have cB: "InputScanner_input ?sA ?cB = (fst (InputScanner_input ?sA ?cB), ?sB)"
    by simp
  note T = auto_titles[where s = ex_scanner and titleA = None and titleB = "Some []"
      and defvalA = "VInt 5" and restA = "(None, VNone, VNone, VNone, VNone, VNone)"
      and defvalB = "VBool True" and restB = "(None, VNone, VNone, VNone, VNone, VNone)"
      and vA = "fst (InputScanner_input ex_scanner ?cA)" and sA = "?sA" and sA' = "?sA"
      and vB = "fst (InputScanner_input ?sA ?cB)" and sB = "?sB", THEN conjunct2]
  from T e t cA cB
  have "map (\<lambda>d. map_of d ''title'') (InputScanner.inputs ?sB)
       = [Some (VStr ''input1''), Some (VStr ''input2'')]"
    by blast
  with e show ?thesis by blast
qed

section \<open>Draw commands\<close>

lemma map_of_dict_set: "map_of (dict_set d k v) = (map_of d)(k \<mapsto> v)"
  by (simp add: dict_set_def update_conv')

lemma set_color_other:
  "set_color color q = Inr q' \<Longrightarrow> k \<noteq> ''color'' \<Longrightarrow> map_of q' k = map_of q k"
  by (auto simp: set_color_def map_of_dict_set split: option.splits if_splits sum.splits)

lemma set_alpha_other:
  "set_alpha t q = Inr q' \<Longrightarrow> k \<noteq> ''alpha'' \<Longrightarrow> map_of q' k = map_of q k"
  by (auto simp: set_alpha_def map_of_dict_set split: option.splits if_splits)

lemma set_alpha_None: "set_alpha None q = Inr q"
  by (simp add: set_alpha_def truthy_int_def)

lemma float_of_int_25: "float_of_int 25 = Some (Finite False 7036874417766400 (- 48))"
  by code_simp

lemma float_mul_25: 
  "float_mul (Finite False 7036874417766400 (- 48)) lit_0_01 = Finite False 4503599627370496 (- 54)"
  by code_simp

lemma set_alpha_25:
  "set_alpha (Some 25) q = Inr (dict_set q ''alpha'' (VFloat (Finite False 4503599627370496 (- 54))))"
  by (simp add: set_alpha_def truthy_int_def float_of_int_25 float_mul_25)

lemma quarter: "real_of_pyfloat (Finite False 4503599627370496 (- 54)) = 25 / 100"
  by (simp add: real_of_pyfloat_def power_int_minus)

lemma lit_0_01_nearest:
  "\<bar>real_of_pyfloat lit_0_01 - 1 / 100\<bar> \<le> 2 powi (- 60)"
  by (simp add: real_of_pyfloat_def lit_0_01_def power_int_minus field_simps)


lemma bitlen_le:
  assumes "0 < a" "a < 2 ^ n"
  shows "bitlen a \<le> int n"
proof (rule ccontr)
  assume "\<not> bitlen a \<le> int n"
  then have "int n \<le> bitlen a - 1" by simp
  then have "n \<le> nat (bitlen a - 1)" by simp
  then have "(2::int) ^ n \<le> 2 ^ nat (bitlen a - 1)"
    by (intro power_increasing) simp_all
  also have "\<dots> \<le> a" using bitlen_bounds[OF assms(1)] by simp
  finally show False using assms(2) by simp
qed

lemma round_to_double_finite:
  assumes "0 \<le> a" "a < 2 ^ 1023"
  shows "\<exists>m e. round_to_double s a 0 = Finite s m e"
proof (cases "a = 0")
  case True
  then show ?thesis by (simp add: round_to_double_def)
next
  case False
  with assms have "bitlen a \<le> 1023" using bitlen_le[of a 1023] by simp
  then have "max (bitlen a - 53) (- 1074 - 0) \<le> 970" by simp
  then show ?thesis
    using False by (auto simp add: round_to_double_def Let_def)
qed

lemma float_of_int_bounded: "\<bar>n\<bar> < 2 ^ 1023 \<Longrightarrow> float_of_int n \<noteq> None"
  using round_to_double_finite[of "\<bar>n\<bar>" "n < 0"]
  by (auto simp: float_of_int_def)

lemma set_alpha_ok:
  "\<forall>t. transp' = Some t \<longrightarrow> \<bar>t\<bar> < 2 ^ 1023 \<Longrightarrow> \<exists>q'. set_alpha transp' q = Inr q'"
proof (cases "truthy_int transp'")
  case False
  then show ?thesis by (simp add: set_alpha_def)
next
  case True
  assume b: "\<forall>t. transp' = Some t \<longrightarrow> \<bar>t\<bar> < 2 ^ 1023"
  from True obtain t where t: "transp' = Some t"
    by (cases transp') (simp_all add: truthy_int_def)
  with b have "float_of_int t \<noteq> None" by (intro float_of_int_bounded) blast
  then obtain x where "float_of_int t = Some x" by blast
  with True t show ?thesis by (simp add: set_alpha_def)
qed

lemma set_color_ok:
  "\<forall>c. color = Some c \<longrightarrow> c \<noteq> VSeries [] \<and> (\<forall>n. c \<noteq> VBuiltinSeries n []) \<Longrightarrow>
   \<exists>q'. set_color color q = Inr q'"
proof (cases color)
  case None
  then show ?thesis by (simp add: set_color_def)
next
  case (Some c)
  assume "\<forall>c. color = Some c \<longrightarrow> c \<noteq> VSeries [] \<and> (\<forall>n. c \<noteq> VBuiltinSeries n [])"
  with Some show ?thesis
    by (cases c) (simp_all add: set_color_def series_last_def isinstance_Series_def
        subtype_of_Series_def)
qed

lemma plot_result:
  assumes "RenderVM_plot c s (series, title, color, linewidth, style, trackprice, transp',
             histbase, offset, join, editable, show_last) = (Inr (VDict p), s')"
  shows "s' = s\<lparr>plots := plots s @ [p]\<rparr>
     \<and> map_of p ''series'' = Some series
     \<and> (\<exists>q. map_of q ''alpha'' = None \<and> set_alpha transp' q = Inr p)"
proof -
  define plot1 where "plot1 =
     (if truthy_int style then
               (let st = the style in
                if st = STYLE_LINE c then dict_set [(''title'', VStr title), (''series'', series)] ''type'' (VStr ''line'')
                else if st = STYLE_STEPLINE c then dict_set [(''title'', VStr title), (''series'', series)] ''type'' (VStr ''line'')
                else if st = STYLE_HISTOGRAM c then dict_set [(''title'', VStr title), (''series'', series)] ''type'' (VStr ''bar'')
                else if st = STYLE_CROSS c then
                  dict_set (dict_set [(''title'', VStr title), (''series'', series)] ''mark'' (VStr ''+'')) ''type'' (VStr ''marker'')
                else if st = STYLE_AREA c then dict_set [(''title'', VStr title), (''series'', series)] ''type'' (VStr ''band'')
                else if st = STYLE_COLUMNS c then dict_set [(''title'', VStr title), (''series'', series)] ''type'' (VStr ''bar'')
                else if st = STYLE_CIRCLES c then
                  dict_set (dict_set [(''title'', VStr title), (''series'', series)] ''mark'' (VStr ''o'')) ''type'' (VStr ''marker'')
                else dict_set [(''title'', VStr title), (''series'', series)] ''type'' (VStr ''line''))
             else [(''title'', VStr title), (''series'', series)])"
  have m1: "map_of plot1 ''series'' = Some series" "map_of plot1 ''alpha'' = None"
    by (simp_all add: plot1_def Let_def map_of_dict_set)
  have eq: "RenderVM_plot c s (series, title, color, linewidth, style, trackprice, transp',
             histbase, offset, join, editable, show_last) =
      (case set_color color plot1 of
           Inl e \<Rightarrow> (Inl e, s)
         | Inr plot \<Rightarrow>
             (case set_alpha transp'
                     (if truthy_int linewidth then dict_set plot ''width'' (VInt (the linewidth))
                      else plot) of
                   Inl e \<Rightarrow> (Inl e, s)
                 | Inr plot \<Rightarrow> (Inr (VDict plot), s\<lparr>plots := plots s @ [plot]\<rparr>)))"
    unfolding plot1_def RenderVM_plot.simps Let_def ..
  from assms obtain plot2 where c2: "set_color color plot1 = Inr plot2"
    unfolding eq by (cases "set_color color plot1") auto
  let ?plot3 = "if truthy_int linewidth then dict_set plot2 ''width'' (VInt (the linewidth))
                else plot2"
  from assms c2 have a3: "set_alpha transp' ?plot3 = Inr p" and s': "s' = s\<lparr>plots := plots s @ [p]\<rparr>"
    unfolding eq by (cases "set_alpha transp' ?plot3"; simp)+
  have m2: "map_of plot2 ''series'' = Some series" "map_of plot2 ''alpha'' = None"
    using set_color_other[OF c2] m1 by simp_all
  then have m3: "map_of ?plot3 ''series'' = Some series" "map_of ?plot3 ''alpha'' = None"
    by (simp_all add: map_of_dict_set)
  have "map_of p ''series'' = Some series"
    using set_alpha_other[OF a3, of "''series''"] m3 by simp
  with s' a3 m3 show ?thesis by blast
qed

lemma plot_unfold:
  "\<exists>plot1. RenderVM_plot c s (series, title, color, linewidth, style, trackprice, transp',
             histbase, offset, join, editable, show_last) =
      (case set_color color plot1 of
         Inl e \<Rightarrow> (Inl e, s)
       | Inr plot \<Rightarrow>
           (case set_alpha transp'
                   (if truthy_int linewidth then dict_set plot ''width'' (VInt (the linewidth))
                    else plot) of
              Inl e \<Rightarrow> (Inl e, s)
            | Inr plot \<Rightarrow> (Inr (VDict plot), s\<lparr>plots := plots s @ [plot]\<rparr>)))"
  unfolding RenderVM_plot.simps Let_def by blast

lemma plot_returns:
  assumes "\<forall>x. color = Some x \<longrightarrow> x \<noteq> VSeries [] \<and> (\<forall>n. x \<noteq> VBuiltinSeries n [])"
    and "\<forall>t. transp' = Some t \<longrightarrow> \<bar>t\<bar> < 2 ^ 1023"
  shows "\<exists>p. RenderVM_plot c s (series, title, color, linewidth, style, trackprice, transp',
             histbase, offset, join, editable, show_last)
           = (Inr (VDict p), s\<lparr>plots := plots s @ [p]\<rparr>)"
proof -
  from plot_unfold[of c s series title color linewidth style trackprice transp'
      histbase offset join editable show_last]
  obtain plot1 where eq: "RenderVM_plot c s (series, title, color, linewidth, style, trackprice,
             transp', histbase, offset, join, editable, show_last) =
      (case set_color color plot1 of
         Inl e \<Rightarrow> (Inl e, s)
       | Inr plot \<Rightarrow>
           (case set_alpha transp'
                   (if truthy_int linewidth then dict_set plot ''width'' (VInt (the linewidth))
                    else plot) of
              Inl e \<Rightarrow> (Inl e, s)
            | Inr plot \<Rightarrow> (Inr (VDict plot), s\<lparr>plots := plots s @ [plot]\<rparr>)))"
    by blast
  from set_color_ok[OF assms(1)] obtain q where q: "set_color color plot1 = Inr q" by blast
  from set_alpha_ok[OF assms(2)] obtain p where
    "set_alpha transp'
       (if truthy_int linewidth then dict_set q ''width'' (VInt (the linewidth)) else q) = Inr p"
    by blast
  with q show ?thesis unfolding eq by simp
qed

text \<open>
  C7.  A \<open>plot\<close> call with \<open>transp=25\<close> that produces a command gives it the opacity
  \<open>alpha\<close> equal to the double \<open>25 * 0.01\<close>, which is exactly \<open>0.25\<close>; a \<open>plot\<close> call
  without \<open>transp\<close> that produces a command gives it no \<open>alpha\<close> entry.  In both cases the
  command is appended to the sequence of commands, and the call does produce a command
  unless its colour is a series without samples.
\<close>

theorem plot_transparency:
  "(RenderVM_plot c s (series, title, color, linewidth, style, trackprice, Some 25,
       histbase, offset, join, editable, show_last) = (Inr (VDict p), s')
      \<longrightarrow> map_of p ''alpha'' = Some (VFloat (Finite False 4503599627370496 (- 54)))
          \<and> s' = s\<lparr>plots := plots s @ [p]\<rparr>)
   \<and> real_of_pyfloat (Finite False 4503599627370496 (- 54)) = 25 / 100
   \<and> (RenderVM_plot c s (series, title, color, linewidth, style, trackprice, None,
       histbase, offset, join, editable, show_last) = (Inr (VDict p), s')
      \<longrightarrow> map_of p ''alpha'' = None \<and> s' = s\<lparr>plots := plots s @ [p]\<rparr>)
   \<and> ((\<forall>x. color = Some x \<longrightarrow> x \<noteq> VSeries [] \<and> (\<forall>n. x \<noteq> VBuiltinSeries n [])) \<longrightarrow>
        (\<exists>p. RenderVM_plot c s (series, title, color, linewidth, style, trackprice, Some 25,
           histbase, offset, join, editable, show_last)
           = (Inr (VDict p), s\<lparr>plots := plots s @ [p]\<rparr>))
        \<and> (\<exists>p. RenderVM_plot c s (series, title, color, linewidth, style, trackprice, None,
           histbase, offset, join, editable, show_last)
           = (Inr (VDict p), s\<lparr>plots := plots s @ [p]\<rparr>)))"
proof (intro conjI impI)
  show "real_of_pyfloat (Finite False 4503599627370496 (- 54)) = 25 / 100"
    by (rule quarter)
next
  assume "RenderVM_plot c s (series, title, color, linewidth, style, trackprice, Some 25,
       histbase, offset, join, editable, show_last) = (Inr (VDict p), s')"
  from plot_result[OF this] obtain q where
    "s' = s\<lparr>plots := plots s @ [p]\<rparr>" "set_alpha (Some 25) q = Inr p" by blast
  then show "map_of p ''alpha'' = Some (VFloat (Finite False 4503599627370496 (- 54)))"
    and "s' = s\<lparr>plots := plots s @ [p]\<rparr>"
    by (auto simp: set_alpha_25 map_of_dict_set)
next
  assume "RenderVM_plot c s (series, title, color, linewidth, style, trackprice, None,
       histbase, offset, join, editable, show_last) = (Inr (VDict p), s')"
  from plot_result[OF this] obtain q where
    "s' = s\<lparr>plots := plots s @ [p]\<rparr>" "set_alpha None q = Inr p" "map_of q ''alpha'' = None"
    by blast
  then show "map_of p ''alpha'' = None" and "s' = s\<lparr>plots := plots s @ [p]\<rparr>"
    by (auto simp: set_alpha_None)
next
  assume ok: "\<forall>x. color = Some x \<longrightarrow> x \<noteq> VSeries [] \<and> (\<forall>n. x \<noteq> VBuiltinSeries n [])"
  have "\<forall>t. Some (25::int) = Some t \<longrightarrow> \<bar>t\<bar> < 2 ^ 1023" by simp
  from plot_returns[OF ok this]
  show "\<exists>p. RenderVM_plot c s (series, title, color, linewidth, style, trackprice, Some 25,
           histbase, offset, join, editable, show_last)
           = (Inr (VDict p), s\<lparr>plots := plots s @ [p]\<rparr>)" .
  have "\<forall>t. (None::int option) = Some t \<longrightarrow> \<bar>t\<bar> < 2 ^ 1023" by simp
  from plot_returns[OF ok this]
  show "\<exists>p. RenderVM_plot c s (series, title, color, linewidth, style, trackprice, None,
           histbase, offset, join, editable, show_last)
           = (Inr (VDict p), s\<lparr>plots := plots s @ [p]\<rparr>)" .
qed

theorem plot_transparency_witness:
  "RenderVM_plot ex_styles ex_render
     (VSeries [VInt 1], ''t'', None, None, None, None, Some 25, None, None, None, None, None)
     = (Inr (VDict [(''title'', VStr ''t''), (''series'', VSeries [VInt 1]),
                    (''alpha'', VFloat (Finite False 4503599627370496 (- 54)))]),
        ex_render\<lparr>plots := plots ex_render @
          [[(''title'', VStr ''t''), (''series'', VSeries [VInt 1]),
            (''alpha'', VFloat (Finite False 4503599627370496 (- 54)))]]\<rparr>)
   \<and> map_of [(''title'', VStr ''t''), (''series'', VSeries [VInt 1]),
              (''alpha'', VFloat (Finite False 4503599627370496 (- 54)))] ''alpha''
       = Some (VFloat (Finite False 4503599627370496 (- 54)))
   \<and> RenderVM_plot ex_styles ex_render
     (VSeries [VInt 1], ''t'', None, None, None, None, None, None, None, None, None, None)
     = (Inr (VDict [(''title'', VStr ''t''), (''series'', VSeries [VInt 1])]),
        ex_render\<lparr>plots := plots ex_render @
          [[(''title'', VStr ''t''), (''series'', VSeries [VInt 1])]]\<rparr>)
   \<and> map_of [(''title'', VStr ''t''), (''series'', VSeries [VInt 1])] ''alpha'' = None"
proof -
  let ?p = "[(''title'', VStr ''t''), (''series'', VSeries [VInt 1]),
             (''alpha'', VFloat (Finite False 4503599627370496 (- 54)))]"
  let ?q = "[(''title'', VStr ''t''), (''series'', VSeries [VInt 1])]"
  have a: "RenderVM_plot ex_styles ex_render
     (VSeries [VInt 1], ''t'', None, None, None, None, Some 25, None, None, None, None, None)
     = (Inr (VDict ?p), ex_render\<lparr>plots := plots ex_render @ [?p]\<rparr>)"
    by (simp add: RenderVM_plot.simps set_color_def set_alpha_25 truthy_int_def dict_set_def)
  have b: "RenderVM_plot ex_styles ex_render
     (VSeries [VInt 1], ''t'', None, None, None, None, None, None, None, None, None, None)
     = (Inr (VDict ?q), ex_render\<lparr>plots := plots ex_render @ [?q]\<rparr>)"
    by (simp add: RenderVM_plot.simps set_color_def set_alpha_None truthy_int_def Let_def)
  note T = plot_transparency[where c = ex_styles and s = ex_render and series = "VSeries [VInt 1]"
      and title = "''t''" and color = None and linewidth = None and style = None
      and trackprice = None and histbase = None and offset = None and join = None
      and editable = None and show_last = None]
  from T[where p = ?p and s' = "ex_render\<lparr>plots := plots ex_render @ [?p]\<rparr>"] a
  have c: "map_of ?p ''alpha'' = Some (VFloat (Finite False 4503599627370496 (- 54)))"
    by blast
  from T[where p = ?q and s' = "ex_render\<lparr>plots := plots ex_render @ [?q]\<rparr>"] b
  have d: "map_of ?q ''alpha'' = None"
    by blast
  from a b c d show ?thesis by blast
qed

lemma plot_result_args:
  assumes "RenderVM_plot c s (series, rest) = (Inr (VDict p), s')"
  shows "s' = s\<lparr>plots := plots s @ [p]\<rparr> \<and> map_of p ''series'' = Some series"
proof -
  obtain t1 c1 w1 st1 tp1 tr1 g where r: "rest = (t1, c1, w1, st1, tp1, tr1, g)"
    by (cases rest)
  obtain hb1 of1 jn1 ed1 sl1 where g: "g = (hb1, of1, jn1, ed1, sl1)"
    by (cases g)
  from plot_result[of c s series t1 c1 w1 st1 tp1 tr1 hb1 of1 jn1 ed1 sl1 p s'] assms
  show ?thesis unfolding r g by blast
qed

lemma fill_result:
  assumes "map_of p1 ''series'' = Some x1" "map_of p2 ''series'' = Some x2"
  shows "RenderVM_fill s (p1, p2, color, transp', title, editable, show_last) =
     (case set_color color
             [(''title'', (case title of None \<Rightarrow> VNone | Some t \<Rightarrow> VStr t)),
              (''series'', x1), (''series2'', x2), (''type'', VStr ''fill'')] of
        Inl e \<Rightarrow> (Inl e, s)
      | Inr q \<Rightarrow>
          (case set_alpha transp' q of
             Inl e \<Rightarrow> (Inl e, s)
           | Inr d \<Rightarrow> (Inr (VDict d), s\<lparr>plots := plots s @ [d]\<rparr>)))"
  by (simp add: RenderVM_fill.simps dict_get_def assms)

lemma fill_cases:
  assumes "map_of p1 ''series'' = Some x1" "map_of p2 ''series'' = Some x2"
  shows "(\<exists>e. RenderVM_fill s (p1, p2, color, transp', title, editable, show_last) = (Inl e, s))
     \<or> (\<exists>d. RenderVM_fill s (p1, p2, color, transp', title, editable, show_last)
              = (Inr (VDict d), s\<lparr>plots := plots s @ [d]\<rparr>)
           \<and> map_of d ''type'' = Some (VStr ''fill'')
           \<and> map_of d ''series'' = Some x1
           \<and> map_of d ''series2'' = Some x2)"
proof -
  let ?base = "[(''title'', (case title of None \<Rightarrow> VNone | Some t \<Rightarrow> VStr t)),
              (''series'', x1), (''series2'', x2), (''type'', VStr ''fill'')]"
  show ?thesis
  proof (cases "set_color color ?base")
    case (Inl e)
    then show ?thesis by (simp add: fill_result[OF assms])
  next
    case (Inr q)
    note q = this
    show ?thesis
    proof (cases "set_alpha transp' q")
      case (Inl e)
      with q show ?thesis by (simp add: fill_result[OF assms])
    next
      case (Inr d)
      have "map_of d ''type'' = Some (VStr ''fill'')" "map_of d ''series'' = Some x1"
        "map_of d ''series2'' = Some x2"
        using set_alpha_other[OF Inr] set_color_other[OF q] by simp_all
      with q Inr show ?thesis by (simp add: fill_result[OF assms])
    qed
  qed
qed

lemma fill_returns:
  assumes "map_of p1 ''series'' = Some x1" "map_of p2 ''series'' = Some x2"
    and "\<forall>x. color = Some x \<longrightarrow> x \<noteq> VSeries [] \<and> (\<forall>n. x \<noteq> VBuiltinSeries n [])"
    and "\<forall>t. transp' = Some t \<longrightarrow> \<bar>t\<bar> < 2 ^ 1023"
  shows "\<exists>d. RenderVM_fill s (p1, p2, color, transp', title, editable, show_last)
              = (Inr (VDict d), s\<lparr>plots := plots s @ [d]\<rparr>)"
proof -
  let ?base = "[(''title'', (case title of None \<Rightarrow> VNone | Some t \<Rightarrow> VStr t)),
              (''series'', x1), (''series2'', x2), (''type'', VStr ''fill'')]"
  from set_color_ok[OF assms(3)] obtain q where q: "set_color color ?base = Inr q" by blast
  from set_alpha_ok[OF assms(4)] obtain d where "set_alpha transp' q = Inr d" by blast
  with q show ?thesis by (simp add: fill_result[OF assms(1,2)])
qed

text \<open>
  C8.  Let two \<open>plot\<close> calls return the commands \<open>pA\<close> and \<open>pB\<close> (other commands may be
  appended after each).  A \<open>fill\<close> call with \<open>pA\<close> and \<open>pB\<close> as \<open>series1\<close> and \<open>series2\<close>
  either raises while styling and appends nothing, or appends exactly one command, after
  both plot commands; that command has the type \<open>fill\<close> and refers to the series of the two
  plots, not to the commands.  The call does not raise unless its colour is a series
  without samples or its transparency is too large for a double.
\<close>

theorem fill_after_plots:
  "RenderVM_plot c r (seriesA, restA) = (Inr (VDict pA), rA)
   \<and> plots rA' = plots rA @ moreA
   \<and> RenderVM_plot c rA' (seriesB, restB) = (Inr (VDict pB), rB)
   \<and> plots rB' = plots rB @ moreB
   \<longrightarrow>
   ((\<exists>e. RenderVM_fill rB' (pA, pB, color, transp', title, editable, show_last) = (Inl e, rB'))
    \<or> (\<exists>d. RenderVM_fill rB' (pA, pB, color, transp', title, editable, show_last)
              = (Inr (VDict d), rB'\<lparr>plots := plots rB' @ [d]\<rparr>)
          \<and> plots rB' @ [d] = plots r @ [pA] @ moreA @ [pB] @ moreB @ [d]
          \<and> map_of d ''type'' = Some (VStr ''fill'')
          \<and> map_of d ''series'' = Some seriesA
          \<and> map_of d ''series2'' = Some seriesB))
   \<and> ((\<forall>x. color = Some x \<longrightarrow> x \<noteq> VSeries [] \<and> (\<forall>n. x \<noteq> VBuiltinSeries n []))
        \<and> (\<forall>t. transp' = Some t \<longrightarrow> \<bar>t\<bar> < 2 ^ 1023) \<longrightarrow>
       (\<exists>d. RenderVM_fill rB' (pA, pB, color, transp', title, editable, show_last)
              = (Inr (VDict d), rB'\<lparr>plots := plots rB' @ [d]\<rparr>)
          \<and> plots rB' @ [d] = plots r @ [pA] @ moreA @ [pB] @ moreB @ [d]
          \<and> map_of d ''type'' = Some (VStr ''fill'')
          \<and> map_of d ''series'' = Some seriesA
          \<and> map_of d ''series2'' = Some seriesB))"
proof
  assume a: "RenderVM_plot c r (seriesA, restA) = (Inr (VDict pA), rA)
   \<and> plots rA' = plots rA @ moreA
   \<and> RenderVM_plot c rA' (seriesB, restB) = (Inr (VDict pB), rB)
   \<and> plots rB' = plots rB @ moreB"
  from a have pA: "map_of pA ''series'' = Some seriesA" and s1: "plots rA = plots r @ [pA]"
    using plot_result_args[of c r seriesA restA pA rA] by simp_all
  from a have pB: "map_of pB ''series'' = Some seriesB" and s2: "plots rB = plots rA' @ [pB]"
    using plot_result_args[of c rA' seriesB restB pB rB] by simp_all
  from a s1 s2 have pl: "plots rB' = plots r @ [pA] @ moreA @ [pB] @ moreB"
    by simp
  let ?call = "RenderVM_fill rB' (pA, pB, color, transp', title, editable, show_last)"
  let ?good = "\<exists>d. ?call = (Inr (VDict d), rB'\<lparr>plots := plots rB' @ [d]\<rparr>)
          \<and> plots rB' @ [d] = plots r @ [pA] @ moreA @ [pB] @ moreB @ [d]
          \<and> map_of d ''type'' = Some (VStr ''fill'')
          \<and> map_of d ''series'' = Some seriesA
          \<and> map_of d ''series2'' = Some seriesB"
  have cases: "(\<exists>e. ?call = (Inl e, rB')) \<or> ?good"
    using fill_cases[OF pA pB, of rB' color transp' title editable show_last] pl by auto
  have ret: "?good"
    if "(\<forall>x. color = Some x \<longrightarrow> x \<noteq> VSeries [] \<and> (\<forall>n. x \<noteq> VBuiltinSeries n []))
        \<and> (\<forall>t. transp' = Some t \<longrightarrow> \<bar>t\<bar> < 2 ^ 1023)"
  proof -
    from that fill_returns[OF pA pB, of color transp' rB' title editable show_last]
    obtain d where "?call = (Inr (VDict d), rB'\<lparr>plots := plots rB' @ [d]\<rparr>)" by blast
    with cases show ?thesis by auto
  qed
  from cases ret
  show "((\<exists>e. ?call = (Inl e, rB')) \<or> ?good)
   \<and> ((\<forall>x. color = Some x \<longrightarrow> x \<noteq> VSeries [] \<and> (\<forall>n. x \<noteq> VBuiltinSeries n []))
        \<and> (\<forall>t. transp' = Some t \<longrightarrow> \<bar>t\<bar> < 2 ^ 1023) \<longrightarrow> ?good)"
    by blast
qed

theorem fill_after_plots_witness:
  "\<exists>r1 r2 d.
     RenderVM_plot ex_styles ex_render
       (VSeries [VInt 1], ''a'', None, None, None, None, None, None, None, None, None, None)
       = (Inr (VDict [(''title'', VStr ''a''), (''series'', VSeries [VInt 1])]), r1)
   \<and> RenderVM_plot ex_styles r1
       (VSeries [VInt 2], ''b'', None, None, None, None, None, None, None, None, None, None)
       = (Inr (VDict [(''title'', VStr ''b''), (''series'', VSeries [VInt 2])]), r2)
   \<and> RenderVM_fill r2
        ([(''title'', VStr ''a''), (''series'', VSeries [VInt 1])],
         [(''title'', VStr ''b''), (''series'', VSeries [VInt 2])],
         None, None, None, None, None)
       = (Inr (VDict d), r2\<lparr>plots := plots r2 @ [d]\<rparr>)
   \<and> plots r2 @ [d] =
        [[(''title'', VStr ''a''), (''series'', VSeries [VInt 1])],
         [(''title'', VStr ''b''), (''series'', VSeries [VInt 2])], d]
   \<and> map_of d ''type'' = Some (VStr ''fill'')
   \<and> map_of d ''series'' = Some (VSeries [VInt 1])
   \<and> map_of d ''series2'' = Some (VSeries [VInt 2])"
proof -
  let ?p1 = "[(''title'', VStr ''a''), (''series'', VSeries [VInt 1])]"
  let ?p2 = "[(''title'', VStr ''b''), (''series'', VSeries [VInt 2])]"
  let ?r1 = "ex_render\<lparr>plots := plots ex_render @ [?p1]\<rparr>"
  let ?r2 = "?r1\<lparr>plots := plots ?r1 @ [?p2]\<rparr>"
  have e: "plots ex_render = []"
    by (simp add: ex_render_def RenderVM_init_def)
  have a1: "RenderVM_plot ex_styles ex_render
       (VSeries [VInt 1], ''a'', None, None, None, None, None, None, None, None, None, None)
       = (Inr (VDict ?p1), ?r1)"
    by (simp add: RenderVM_plot.simps set_color_def set_alpha_None truthy_int_def Let_def)
  have a2: "RenderVM_plot ex_styles ?r1
       (VSeries [VInt 2], ''b'', None, None, None, None, None, None, None, None, None, None)
       = (Inr (VDict ?p2), ?r2)"
    by (simp add: RenderVM_plot.simps set_color_def set_alpha_None truthy_int_def Let_def)
  note T = fill_after_plots[where c = ex_styles and r = ex_render
      and seriesA = "VSeries [VInt 1]"
      and restA = "(''a'', None, None, None, None, None, None, None, None, None, None)"
      and pA = "?p1" and rA = "?r1" and rA' = "?r1" and moreA = "[]"
      and seriesB = "VSeries [VInt 2]"
      and restB = "(''b'', None, None, None, None, None, None, None, None, None, None)"
      and pB = "?p2" and rB = "?r2" and rB' = "?r2" and moreB = "[]"
      and color = None and transp' = None and title = None and editable = None
      and show_last = None]
  from T a1 a2 obtain d where
    "RenderVM_fill ?r2 (?p1, ?p2, None, None, None, None, None)
       = (Inr (VDict d), ?r2\<lparr>plots := plots ?r2 @ [d]\<rparr>)"
    "plots ?r2 @ [d] = plots ex_render @ [?p1] @ [] @ [?p2] @ [] @ [d]"
    "map_of d ''type'' = Some (VStr ''fill'')"
    "map_of d ''series'' = Some (VSeries [VInt 1])"
    "map_of d ''series2'' = Some (VSeries [VInt 2])"
    by auto
  with a1 a2 e show ?thesis
    by (intro exI[of _ ?r1] exI[of _ ?r2] exI[of _ d]) simp
qed

text \<open>
  C10.  When the stored inputs of the render pass have no entry for the title of an input
  call (the explicit title, or \<open>input<N>\<close> for the \<open>N\<close>-th call), the call raises Python's
  \<open>KeyError\<close> for that title, whatever the default, the type and the host conversions are:
  the lookup comes before type inference and coercion.  A \<open>KeyError\<close> is not a \<open>PineError\<close>,
  and \<open>func_call\<close> passes it on unchanged from the handler registered as \<open>input\<close>.
\<close>

theorem render_input_missing_key:
  "(RenderVM.inputs r (if truthy_str title then the title
                       else ''input'' @ format_nat (input_idx r + 1)) = None \<longrightarrow>
      RenderVM_input h r (defval, title, ty, minval, maxval, confirm, step, options) =
        (Inl (KeyError (VStr (if truthy_str title then the title
                              else ''input'' @ format_nat (input_idx r + 1)))),
         r\<lparr>input_idx := input_idx r + 1\<rparr>))
   \<and> (function_table s fname = Some (Host f)
        \<and> builtin f s args kwargs = (Inl (KeyError k), s') \<longrightarrow>
      func_call ev builtin s fname args kwargs = (Inl (KeyError k), s'))
   \<and> function_table (RenderVM_init functions variables stored) ''input''
        = Some (Host ''RenderVM.input'')
   \<and> RenderVM.inputs (RenderVM_init functions variables stored) = stored
   \<and> (\<forall>e. KeyError k \<noteq> PineError e)"
  by (auto simp: render_input_missing func_call_def RenderVM_init_def)

theorem render_input_missing_key_witness:
  "RenderVM.inputs ex_render ''length'' = None
   \<and> RenderVM_input ex_host ex_render
        (VInt 14, Some ''length'', Some ''integer'', VNone, VNone, VNone, VNone, VNone)
      = (Inl (KeyError (VStr ''length'')), ex_render\<lparr>input_idx := 1\<rparr>)"
proof -
  have n: "RenderVM.inputs ex_render ''length'' = None" and i: "input_idx ex_render = 0"
    by (simp_all add: ex_render_def RenderVM_init_def)
  from render_input_missing_key[where r = ex_render and title = "Some ''length''"
      and h = ex_host and defval = "VInt 14" and ty = "Some ''integer''" and minval = VNone
      and maxval = VNone and confirm = VNone and step = VNone and options = VNone,
      THEN conjunct1] n i
  show ?thesis by (simp add: truthy_str_def)
qed

end
